theory Spec2Isabelle
  imports Complex_Main "HOL-Library.Word" "HOL-Library.AList"
begin

section \<open>Strings\<close>

text \<open>
  A JavaScript string is a sequence of UTF-16 code units; \<open>length\<close> and
  \<open>substring\<close> count code units. String literals of the source are written
  with \<open>str\<close>, which maps the characters of an ASCII literal to their code units.
\<close>

type_synonym codeunit = "16 word"
type_synonym jsstring = "codeunit list"

definition str :: "string \<Rightarrow> jsstring" where
  "str s = map (\<lambda>c. of_nat (of_char c)) s"

text \<open>
  \<open>String.prototype.substring(start, end)\<close>: both arguments are clamped to
  \<open>[0, length]\<close> and swapped when the first exceeds the second.
\<close>

definition substring :: "jsstring \<Rightarrow> int \<Rightarrow> int \<Rightarrow> jsstring" where
  "substring s start end =
     (let len = int (length s);
          finalStart = min (max start 0) len;
          finalEnd = min (max end 0) len;
          from = min finalStart finalEnd;
          to = max finalStart finalEnd
      in take (nat (to - from)) (drop (nat from) s))"

section \<open>The chunker\<close>

text \<open>
  \<^verbatim>\<open>
  const chunkText = (text: string, chunkSize = 4000, overlap = 400): string[] => {
    const chunks: string[] = [];
    if (text.length <= chunkSize) {
      return [text];
    }
    for (let i = 0; i < text.length; i += chunkSize - overlap) {
      chunks.push(text.substring(i, i + chunkSize));
    }
    return chunks;
  };
  \<close>
  \<open>chunkSize\<close> and \<open>overlap\<close> are character counts (natural numbers). The loop
  index is an integer: the step \<open>chunkSize - overlap\<close> is zero or negative when
  \<open>overlap \<ge> chunkSize\<close>, and then the index never reaches the end of the text. As a
  loop over a list that can grow without bound it is a partial function: \<open>None\<close> is
  the run that never returns.
\<close>

partial_function (option) chunkLoop ::
  "jsstring \<Rightarrow> int \<Rightarrow> int \<Rightarrow> int \<Rightarrow> jsstring list \<Rightarrow> jsstring list option" where
  "chunkLoop text chunkSize overlap i chunks =
     (if i < int (length text)
      then chunkLoop text chunkSize overlap (i + (chunkSize - overlap))
             (chunks @ [substring text i (i + chunkSize)])
      else Some chunks)"

declare chunkLoop.simps [code]

definition chunkText :: "jsstring \<Rightarrow> nat \<Rightarrow> nat \<Rightarrow> jsstring list option" where
  "chunkText text chunkSize overlap =
     (if length text \<le> chunkSize then Some [text]
      else chunkLoop text (int chunkSize) (int overlap) 0 [])"

text \<open>The number of windows of step \<open>step\<close> that start inside a text of \<open>len\<close> characters.\<close>

definition chunkCount :: "nat \<Rightarrow> nat \<Rightarrow> nat" where
  "chunkCount len step = (len + step - 1) div step"

text \<open>
  \<open>chunkLoop\<close> collects the chunks in a list of any length. The array \<open>chunks\<close> of
  the source is bounded: by the language an array holds at most \<open>2^32 - 1\<close> elements
  (an engine may give up earlier), and \<open>chunks.push\<close> on a full array throws
  \<open>RangeError: Invalid array length\<close>. \<open>chunkLoopArray\<close> is the same loop with that
  bound \<open>maxLength\<close>. Every pass that does not leave the loop adds an element, so this
  loop ends for every input: it is a total function. The two loops return the same
  chunks whenever the chunks fit into the array (\<open>chunkText_array_limit\<close> below),
  which with \<open>overlap < chunkSize\<close> holds for every text of at most \<open>maxLength\<close>
  characters.
\<close>

datatype exn = Error jsstring | TypeError | SyntaxError | RangeError

function chunkLoopArray ::
  "nat \<Rightarrow> jsstring \<Rightarrow> int \<Rightarrow> int \<Rightarrow> int \<Rightarrow> jsstring list \<Rightarrow> exn + jsstring list" where
  "chunkLoopArray maxLength text chunkSize overlap i chunks =
     (if i < int (length text)
      then (if length chunks < maxLength
            then chunkLoopArray maxLength text chunkSize overlap (i + (chunkSize - overlap))
                   (chunks @ [substring text i (i + chunkSize)])
            else Inl RangeError)
      else Inr chunks)"
  by pat_completeness auto
termination
  by (relation "measure (\<lambda>(maxLength, text, chunkSize, overlap, i, chunks). maxLength - length chunks)")
     auto

declare chunkLoopArray.simps [simp del]

definition chunkTextArray :: "nat \<Rightarrow> jsstring \<Rightarrow> nat \<Rightarrow> nat \<Rightarrow> exn + jsstring list" where
  "chunkTextArray maxLength text chunkSize overlap =
     (if length text \<le> chunkSize then Inr [text]
      else chunkLoopArray maxLength text (int chunkSize) (int overlap) 0 [])"

definition languageMaxArrayLength :: nat where
  "languageMaxArrayLength = 2 ^ 32 - 1"

section \<open>More string operations\<close>

definition nl :: jsstring where
  "nl = [0x0A]"

text \<open>The en dash \<open>U+2013\<close> that two prompts of the source contain.\<close>

definition endash :: jsstring where
  "endash = [0x2013]"

text \<open>
  \<open>String.prototype.trim\<close> removes white space and line terminators (ECMAScript
  \<open>WhiteSpace\<close> and \<open>LineTerminator\<close>) from both ends.
\<close>

definition isWhiteSpace :: "codeunit \<Rightarrow> bool" where
  "isWhiteSpace c \<longleftrightarrow>
     c \<in> set [0x09, 0x0A, 0x0B, 0x0C, 0x0D, 0x20, 0xA0, 0x1680, 0x2028, 0x2029,
              0x202F, 0x205F, 0x3000, 0xFEFF] \<or> (0x2000 \<le> c \<and> c \<le> 0x200A)"

definition trim :: "jsstring \<Rightarrow> jsstring" where
  "trim s = rev (dropWhile isWhiteSpace (rev (dropWhile isWhiteSpace s)))"

text \<open>\<open>Array.prototype.join\<close> on an array of strings.\<close>

fun joinWith :: "jsstring \<Rightarrow> jsstring list \<Rightarrow> jsstring" where
  "joinWith sep [] = []"
| "joinWith sep [x] = x"
| "joinWith sep (x # y # ys) = x @ sep @ joinWith sep (y # ys)"

text \<open>The decimal digits of a natural number, as a template literal prints it.\<close>

fun decimal :: "nat \<Rightarrow> jsstring" where
  "decimal n = (if n < 10 then [0x30 + of_nat n]
                else decimal (n div 10) @ [0x30 + of_nat (n mod 10)])"

declare decimal.simps [simp del]

section \<open>Values, exceptions and the outside world\<close>

text \<open>
  A thrown value is an \<open>exn\<close> (declared with the chunker above). A computation that
  may throw has the type \<open>exn + 'a\<close>, with \<open>Inl\<close> for the exception; \<open>tryCatch\<close> is
  \<^verbatim>\<open>try { ... } catch { ... }\<close>.
\<close>

definition tryCatch :: "exn + 'a \<Rightarrow> (exn \<Rightarrow> exn + 'a) \<Rightarrow> exn + 'a" where
  "tryCatch body handler = (case body of Inl e \<Rightarrow> handler e | Inr v \<Rightarrow> Inr v)"

text \<open>
  What \<open>JSON.parse\<close> returns. The casts \<^verbatim>\<open>as T\<close> of the source are erased at run
  time, so the functions below work on these values. A number is the real number that
  the parsed double denotes. A property that is absent reads as \<open>undefined\<close>, which is
  \<open>None\<close> here.
\<close>

datatype json =
    JNull
  | JBool bool
  | JNum real
  | JStr jsstring
  | JArr "json list"
  | JObj "(jsstring \<times> json) list"

text \<open>Truthiness, as \<^verbatim>\<open>||\<close> and \<^verbatim>\<open>!\<close> test it.\<close>

fun truthy :: "json \<Rightarrow> bool" where
  "truthy JNull = False"
| "truthy (JBool b) = b"
| "truthy (JNum x) = (x \<noteq> 0)"
| "truthy (JStr s) = (s \<noteq> [])"
| "truthy (JArr xs) = True"
| "truthy (JObj kvs) = True"

text \<open>
  Reading one of the properties the source reads (\<open>clauses\<close>, \<open>clauseText\<close>,
  \<open>simplifiedExplanation\<close>, \<open>riskLevel\<close>) from a value other than \<open>null\<close>: only an
  object can have it. (On \<open>null\<close> a read throws a \<open>TypeError\<close>; the functions below
  test for \<open>null\<close> before they read.)
\<close>

fun getField :: "json \<Rightarrow> jsstring \<Rightarrow> json option" where
  "getField (JObj kvs) k = map_of kvs k"
| "getField v k = None"

text \<open>\<open>Array.prototype.flat()\<close>: one level; an element that is no array is kept.\<close>

definition flat :: "json list \<Rightarrow> json list" where
  "flat xs = concat (map (\<lambda>v. case v of JArr ys \<Rightarrow> ys | _ \<Rightarrow> [v]) xs)"

text \<open>The own enumerable properties that an object spread \<^verbatim>\<open>{...v}\<close> copies.\<close>

definition ownProps :: "json \<Rightarrow> (jsstring \<times> json) list" where
  "ownProps v =
     (case v of
        JObj kvs \<Rightarrow> kvs
      | JArr xs \<Rightarrow> zip (map decimal [0 ..< length xs]) xs
      | JStr s \<Rightarrow> zip (map decimal [0 ..< length s]) (map (\<lambda>c. JStr [c]) s)
      | _ \<Rightarrow> [])"

text \<open>
  The requests to the two remote services of \<open>groqService\<close>, whose code is outside
  the repository's sources, and the log of the calls made to them. A log entry of a
  chat call names the function that made the call.
\<close>

datatype message = Message (messageRole: jsstring) (messageContent: jsstring)

datatype chat_request =
  ChatRequest (requestMessages: "message list") (requestModel: "jsstring option")
    (requestTemperature: "real option")

datatype caller = AnalyzeChunk | SynthesizeReport | SimulateImpact

datatype call = ChatCall caller chat_request | EmbedCall "jsstring list"

record world =
  calls :: "call list"
  progress :: "jsstring list"

text \<open>
  The environment of a run: \<open>JSON.parse\<close> and \<open>Number.prototype.toString\<close> of the
  language, and the answers of the two services. A service answers the request that is
  the \<open>n\<close>-th call of the run, with a text (or with vectors) or by throwing; two calls
  with the same request may be answered differently.
\<close>

record env =
  JSON_parse :: "jsstring \<Rightarrow> exn + json"
  numberToString :: "real \<Rightarrow> jsstring"
  chatService :: "nat \<Rightarrow> chat_request \<Rightarrow> exn + jsstring"
  embedService :: "nat \<Rightarrow> jsstring list \<Rightarrow> exn + real list list"

definition chatComplete ::
  "env \<Rightarrow> caller \<Rightarrow> message list \<Rightarrow> jsstring option \<Rightarrow> real option \<Rightarrow> world
     \<Rightarrow> (exn + jsstring) \<times> world" where
  "chatComplete E who msgs mdl temp w =
     (chatService E (length (calls w)) (ChatRequest msgs mdl temp),
      w\<lparr>calls := calls w @ [ChatCall who (ChatRequest msgs mdl temp)]\<rparr>)"

definition embedTexts ::
  "env \<Rightarrow> jsstring list \<Rightarrow> world \<Rightarrow> (exn + real list list) \<times> world" where
  "embedTexts E inputs w =
     (embedService E (length (calls w)) inputs, w\<lparr>calls := calls w @ [EmbedCall inputs]\<rparr>)"

definition onProgress :: "jsstring \<Rightarrow> world \<Rightarrow> world" where
  "onProgress msg w = w\<lparr>progress := progress w @ [msg]\<rparr>"

text \<open>The chat calls in a log that a given function made.\<close>

definition callsBy :: "caller \<Rightarrow> world \<Rightarrow> chat_request list" where
  "callsBy who w =
     concat (map (\<lambda>c. case c of ChatCall p r \<Rightarrow> (if p = who then [r] else []) | EmbedCall _ \<Rightarrow> [])
               (calls w))"

section \<open>Parsing a model response\<close>

text \<open>
  \<^verbatim>\<open>
  const tryParseJson = <T>(text: string): T | null => {
    try {
      const cleaned = text
        .trim()
        .replace(/^```(json)?/i, "")
        .replace(/```$/i, "")
        .trim();
      return JSON.parse(cleaned) as T;
    } catch {
      return null;
    }
  };
  \<close>
  The first pattern matches three backticks at the start and, greedily, a following
  \<open>json\<close> in any case (without the \<open>u\<close> flag only the ASCII letters match); the second
  matches three backticks at the very end.
\<close>

definition asciiLower :: "codeunit \<Rightarrow> codeunit" where
  "asciiLower c = (if 0x41 \<le> c \<and> c \<le> 0x5A then c + 0x20 else c)"

definition stripLeadingFence :: "jsstring \<Rightarrow> jsstring" where
  "stripLeadingFence s =
     (if take 3 s = str ''```''
      then (let r = drop 3 s
            in if map asciiLower (take 4 r) = str ''json'' then drop 4 r else r)
      else s)"

definition stripTrailingFence :: "jsstring \<Rightarrow> jsstring" where
  "stripTrailingFence s =
     (if 3 \<le> length s \<and> drop (length s - 3) s = str ''```''
      then take (length s - 3) s else s)"

definition cleaned :: "jsstring \<Rightarrow> jsstring" where
  "cleaned text = trim (stripTrailingFence (stripLeadingFence (trim text)))"

definition tryParseJson :: "env \<Rightarrow> jsstring \<Rightarrow> exn + json" where
  "tryParseJson E text = tryCatch (JSON_parse E (cleaned text)) (\<lambda>e. Inr JNull)"

section \<open>Clause extraction and synthesis\<close>

text \<open>The first exception of a list of computations, or all their values.\<close>

fun sequence :: "(exn + 'a) list \<Rightarrow> exn + 'a list" where
  "sequence [] = Inr []"
| "sequence (Inl e # xs) = Inl e"
| "sequence (Inr v # xs) = (case sequence xs of Inl e \<Rightarrow> Inl e | Inr vs \<Rightarrow> Inr (v # vs))"

text \<open>
  What a template literal prints for a value (\<open>ToString\<close>). An array prints its
  elements joined by commas, \<open>null\<close> as the empty string. An object prints as
  \<open>[object Object]\<close> through \<open>Object.prototype.toString\<close>, unless it has a property
  \<open>toString\<close> of its own: a parsed value is never a function, so the conversion finds no
  method that returns a primitive and throws a \<open>TypeError\<close>.
\<close>

fun toStr :: "(real \<Rightarrow> jsstring) \<Rightarrow> json \<Rightarrow> exn + jsstring" where
  "toStr num JNull = Inr (str ''null'')"
| "toStr num (JBool b) = Inr (if b then str ''true'' else str ''false'')"
| "toStr num (JNum x) = Inr (num x)"
| "toStr num (JStr s) = Inr s"
| "toStr num (JArr xs) =
     (case sequence (map (\<lambda>x. if x = JNull then Inr [] else toStr num x) xs) of
        Inl e \<Rightarrow> Inl e
      | Inr parts \<Rightarrow> Inr (joinWith (str '','') parts))"
| "toStr num (JObj kvs) =
     (if map_of kvs (str ''toString'') \<noteq> None then Inl TypeError
      else Inr (str ''[object Object]''))"

definition toStrOpt :: "(real \<Rightarrow> jsstring) \<Rightarrow> json option \<Rightarrow> exn + jsstring" where
  "toStrOpt num v = (case v of None \<Rightarrow> Inr (str ''undefined'') | Some x \<Rightarrow> toStr num x)"

text \<open>
  \<^verbatim>\<open>
  const analyzeChunk = async (chunk: string, role: string): Promise<ClauseAnalysis[]> => {
    const roleInstruction = `The user's role is: ${role}. Analyze all clauses from their perspective.`;
    const output = await chatComplete([
      { role: "system", content: "You help people with below-average literacy. ..." },
      { role: "user",
        content: `${roleInstruction}\n\nTEXT:\n${chunk}\n\nReturn only valid JSON.` },
    ]);
    const parsed = tryParseJson<{ clauses: ClauseAnalysis[] }>(output);
    return parsed?.clauses || [];
  };
  \<close>
  There is no \<^verbatim>\<open>try\<close> around the call of \<open>chatComplete\<close>: when the call throws,
  \<open>analyzeChunk\<close> throws.
\<close>

definition extractorSystemPrompt :: jsstring where
  \<open>extractorSystemPrompt =
     str ''You help people with below-average literacy. Extract only meaningful legal clauses from a text chunk.'' @ nl @
     str ''- Be conservative: if a clause is standard/neutral, set riskLevel to "Negligible".'' @ nl @
     str ''- Only assign Low/Medium/High when there is a clear harm or imbalance for the user.'' @ nl @
     str ''- Use simple words at about a 6th-grade level. Keep it short.'' @ nl @
     str ''- simplifiedExplanation: 1'' @ endash @ str ''2 short sentences in plain language. If helpful, add one tiny example starting with "Example:".'' @ nl @
     str ''- riskReason (Potential Risk): 1'' @ endash @ str ''2 short sentences saying what could go wrong. If helpful, add one tiny example starting with "Example:".'' @ nl @
     str ''- negotiationSuggestion: 1 short sentence suggesting a safer tweak (or say it is fair).'' @ nl @
     str ''- suggestedRewrite: a safer, balanced rewrite of clauseText. Keep original meaning where possible. Short and clear.'' @ nl @
     str ''Return JSON only with a clauses array of objects: { clauseText, simplifiedExplanation, riskLevel in [Low, Medium, High, Negligible], riskReason, negotiationSuggestion, suggestedRewrite }.''\<close>

definition analyzeChunkMessages :: "jsstring \<Rightarrow> jsstring \<Rightarrow> message list" where
  "analyzeChunkMessages chunk role =
     (let roleInstruction =
            str ''The user's role is: '' @ role @ str ''. Analyze all clauses from their perspective.''
      in [Message (str ''system'') extractorSystemPrompt,
          Message (str ''user'')
            (roleInstruction @ nl @ nl @ str ''TEXT:'' @ nl @ chunk @ nl @ nl @
             str ''Return only valid JSON.'')])"

text \<open>\<^verbatim>\<open>parsed?.clauses || []\<close>\<close>

definition clausesOrEmpty :: "json \<Rightarrow> json" where
  "clausesOrEmpty parsed =
     (case (case parsed of JNull \<Rightarrow> None | _ \<Rightarrow> getField parsed (str ''clauses'')) of
        None \<Rightarrow> JArr []
      | Some v \<Rightarrow> if truthy v then v else JArr [])"

definition analyzeChunk :: "env \<Rightarrow> jsstring \<Rightarrow> jsstring \<Rightarrow> world \<Rightarrow> (exn + json) \<times> world" where
  "analyzeChunk E chunk role w =
     (let (output, w') = chatComplete E AnalyzeChunk (analyzeChunkMessages chunk role) None None w
      in (case output of
            Inl e \<Rightarrow> Inl e
          | Inr out \<Rightarrow>
              (case tryParseJson E out of
                 Inl e \<Rightarrow> Inl e
               | Inr parsed \<Rightarrow> Inr (clausesOrEmpty parsed)),
          w'))"

text \<open>
  \<^verbatim>\<open>
  const synthesizeReport = async (clauses: ClauseAnalysis[], role: string) => {
    const roleInstruction = `The user's role is: ${role}. Generate the summary and extract terms/dates from their perspective.`;
    const clauseContext = clauses
      .map((c, i) =>
          `Clause ${i + 1}:\n- Text: "${c.clauseText}"\n- Explanation: "${
            c.simplifiedExplanation
          }"\n- Risk: ${c.riskLevel}\n`)
      .join("\n");
    const output = await chatComplete([
      { role: "system", content: "You help laypeople. ..." },
      { role: "user",
        content: `${roleInstruction}\n\nANALYZED CLAUSES:\n${clauseContext}\n\nReturn only valid JSON.` },
    ]);
    const parsed = tryParseJson<{...}>(output);
    if (!parsed) throw new Error("Failed to parse synthesis JSON");
    return parsed;
  };
  \<close>
\<close>

definition synthesizerSystemPrompt :: jsstring where
  \<open>synthesizerSystemPrompt =
     str ''You help laypeople. Use simple, short sentences. Avoid jargon.'' @ nl @
     str ''- summary: max 4 short sentences in plain language.'' @ nl @
     str ''- keyTerms: definition in 1 simple sentence each.'' @ nl @
     str ''- keyDates: description in 1 short sentence each.'' @ nl @
     str ''- missingClauses: reason in 1 short sentence.'' @ nl @
     str ''Return JSON only with: summary (string), keyTerms (array of {term, definition}), keyDates (array of {date, description}), missingClauses (array of {clauseName, reason}).''\<close>

text \<open>
  The callback of \<open>clauses.map\<close>. For a clause that is \<open>null\<close> the read of
  \<open>c.clauseText\<close> throws; the three properties are printed in the order of the
  template.
\<close>

definition clauseLine :: "env \<Rightarrow> nat \<Rightarrow> json \<Rightarrow> exn + jsstring" where
  \<open>clauseLine E i c =
     (case c of
        JNull \<Rightarrow> Inl TypeError
      | _ \<Rightarrow>
          (case toStrOpt (numberToString E) (getField c (str ''clauseText'')) of
             Inl e \<Rightarrow> Inl e
           | Inr clauseText \<Rightarrow>
               (case toStrOpt (numberToString E) (getField c (str ''simplifiedExplanation'')) of
                  Inl e \<Rightarrow> Inl e
                | Inr simplifiedExplanation \<Rightarrow>
                    (case toStrOpt (numberToString E) (getField c (str ''riskLevel'')) of
                       Inl e \<Rightarrow> Inl e
                     | Inr riskLevel \<Rightarrow>
                         Inr (str ''Clause '' @ decimal (i + 1) @ str '':'' @ nl @
                              str ''- Text: "'' @ clauseText @ str ''"'' @ nl @
                              str ''- Explanation: "'' @ simplifiedExplanation @ str ''"'' @ nl @
                              str ''- Risk: '' @ riskLevel @ nl)))))\<close>

definition clauseContext :: "env \<Rightarrow> json list \<Rightarrow> exn + jsstring" where
  "clauseContext E clauses =
     (case sequence (map (\<lambda>(i, c). clauseLine E i c) (enumerate 0 clauses)) of
        Inl e \<Rightarrow> Inl e
      | Inr ls \<Rightarrow> Inr (joinWith nl ls))"

definition synthesizeMessages :: "jsstring \<Rightarrow> jsstring \<Rightarrow> message list" where
  "synthesizeMessages ctx role =
     (let roleInstruction =
            str ''The user's role is: '' @ role @
            str ''. Generate the summary and extract terms/dates from their perspective.''
      in [Message (str ''system'') synthesizerSystemPrompt,
          Message (str ''user'')
            (roleInstruction @ nl @ nl @ str ''ANALYZED CLAUSES:'' @ nl @ ctx @ nl @ nl @
             str ''Return only valid JSON.'')])"

definition synthesizeReport :: "env \<Rightarrow> json list \<Rightarrow> jsstring \<Rightarrow> world \<Rightarrow> (exn + json) \<times> world" where
  "synthesizeReport E clauses role w =
     (case clauseContext E clauses of
        Inl e \<Rightarrow> (Inl e, w)
      | Inr ctx \<Rightarrow>
          (let (output, w') =
                 chatComplete E SynthesizeReport (synthesizeMessages ctx role) None None w
           in (case output of
                 Inl e \<Rightarrow> Inl e
               | Inr out \<Rightarrow>
                   (case tryParseJson E out of
                      Inl e \<Rightarrow> Inl e
                    | Inr parsed \<Rightarrow>
                        if \<not> truthy parsed then Inl (Error (str ''Failed to parse synthesis JSON''))
                        else Inr parsed),
               w')))"

section \<open>The analysis pipeline\<close>

text \<open>
  \<^verbatim>\<open>
  export const analyzeContract = async (documentText, role, onProgress) => {
    onProgress("Chunking document...");
    const chunks = chunkText(documentText);
    onProgress(`Analyzing ${chunks.length} document section(s)...`);
    const chunkResults = await Promise.all(
      chunks.map((chunk) => analyzeChunk(chunk, role))
    );
    const allClauses = chunkResults.flat();
    if (allClauses.length === 0) {
      throw new Error("No legal clauses were identified in the document. ...");
    }
    onProgress("Synthesizing final report...");
    const finalReport = await synthesizeReport(allClauses, role);
    return { ...finalReport, clauses: allClauses };
  };
  \<close>
  \<open>chunks.map\<close> starts \<open>analyzeChunk\<close> for every chunk, in the order of the chunks:
  \<open>issueAll\<close> makes the calls and pairs every chunk with the outcome its promise will
  settle with. The promises settle in some order of completion, a list of positions.
  \<open>Promise.all\<close> rejects with the first rejection in that order; it fulfils, once every
  position has been fulfilled, with the values by position; while a position is
  missing it stays pending (\<open>None\<close>).
\<close>

fun issueAll :: "env \<Rightarrow> jsstring \<Rightarrow> jsstring list \<Rightarrow> world \<Rightarrow> (exn + json) list \<times> world" where
  "issueAll E role [] w = ([], w)"
| "issueAll E role (chunk # chunks) w =
     (let (r, w') = analyzeChunk E chunk role w;
          (rs, w'') = issueAll E role chunks w'
      in (r # rs, w''))"

fun settle :: "nat list \<Rightarrow> (exn + 'a) list \<Rightarrow> 'a option list \<Rightarrow> (exn + 'a list) option" where
  "settle [] outcomes slots =
     (case those slots of None \<Rightarrow> None | Some vs \<Rightarrow> Some (Inr vs))"
| "settle (i # order) outcomes slots =
     (if i < length outcomes
      then (case outcomes ! i of
              Inl e \<Rightarrow> Some (Inl e)
            | Inr v \<Rightarrow> settle order outcomes (slots[i := Some v]))
      else settle order outcomes slots)"

definition promiseAll :: "nat list \<Rightarrow> (exn + 'a) list \<Rightarrow> (exn + 'a list) option" where
  "promiseAll order outcomes = settle order outcomes (replicate (length outcomes) None)"

definition noClausesMessage :: jsstring where
  "noClausesMessage =
     str ''No legal clauses were identified in the document. It might be too short or in an unsupported format.''"

definition analyzeContract ::
  "env \<Rightarrow> nat list \<Rightarrow> jsstring \<Rightarrow> jsstring \<Rightarrow> world \<Rightarrow> ((exn + json) \<times> world) option" where
  "analyzeContract E order documentText role w =
     (let w1 = onProgress (str ''Chunking document...'') w
      in case chunkText documentText 4000 400 of
           None \<Rightarrow> None
         | Some chunks \<Rightarrow>
             (let w2 = onProgress (str ''Analyzing '' @ decimal (length chunks) @
                                   str '' document section(s)...'') w1;
                  (promises, w3) = issueAll E role chunks w2
              in case promiseAll order promises of
                   None \<Rightarrow> None
                 | Some (Inl e) \<Rightarrow> Some (Inl e, w3)
                 | Some (Inr chunkResults) \<Rightarrow>
                     (let allClauses = flat chunkResults
                      in if length allClauses = 0 then Some (Inl (Error noClausesMessage), w3)
                         else (let w4 = onProgress (str ''Synthesizing final report...'') w3;
                                   (r, w5) = synthesizeReport E allClauses role w4
                               in case r of
                                    Inl e \<Rightarrow> Some (Inl e, w5)
                                  | Inr finalReport \<Rightarrow>
                                      Some (Inr (JObj (AList.update (str ''clauses'') (JArr allClauses)
                                                         (ownProps finalReport))),
                                            w5)))))"

section \<open>Retrieval and the impact simulator\<close>

text \<open>
  \<^verbatim>\<open>
  const cosineSimilarity = (a: number[], b: number[]): number => {
    let dot = 0; let na = 0; let nb = 0;
    for (let i = 0; i < a.length; i++) {
      const va = a[i]; const vb = b[i];
      dot += va * vb; na += va * va; nb += vb * vb;
    }
    const denom = Math.sqrt(na) * Math.sqrt(nb) || 1;
    return dot / denom;
  };
  \<close>
  A number is a double (IEEE 754 binary64): a finite value, an infinity, or \<open>NaN\<close>.
  A finite double is written as the real number it stands for; the sign of zero is
  left out (\<open>-0\<close> and \<open>0\<close> differ only as divisors, and no divisor of this
  computation is zero). The result of an operation on finite doubles is the exact
  result rounded to the nearest double, ties to the even significand:
  \<open>roundToDouble\<close>. A double has 53 significant bits and an exponent of at least
  \<open>-1022\<close> (below it the spacing stays \<open>2^-1074\<close>), and a rounded value of \<open>2^1024\<close>
  or more is an infinity.

  The rounding is a parameter \<open>rnd\<close> of the operations, so that the same loop can also
  be read in exact arithmetic (\<open>rnd = Finite\<close>); \<open>cosineSimilarity\<close>, the function of
  the source, rounds to doubles.

  The components of a vector are the values of finite doubles, as the numbers of a
  parsed embedding response are. An index past the end of \<open>b\<close> reads \<open>undefined\<close>,
  which makes the sums \<open>NaN\<close>; \<open>NaN\<close> and \<open>0\<close> are the falsy numbers that
  \<^verbatim>\<open>|| 1\<close> replaces.
\<close>

datatype number = Finite real | PosInfinity | NegInfinity | NaN

definition roundHalfEven :: "real \<Rightarrow> int" where
  "roundHalfEven x =
     (let f = \<lfloor>x\<rfloor>; d = x - of_int f
      in if d < 1 / 2 then f else if 1 / 2 < d then f + 1 else if even f then f else f + 1)"

definition roundToDouble :: "real \<Rightarrow> number" where
  "roundToDouble x =
     (if x = 0 then Finite 0
      else (let e = max \<lfloor>log 2 \<bar>x\<bar>\<rfloor> (- 1022) - 52;
                y = of_int (roundHalfEven (x / 2 powr of_int e)) * 2 powr of_int e
            in if 2 ^ 1024 \<le> \<bar>y\<bar> then (if 0 < x then PosInfinity else NegInfinity)
               else Finite y))"

definition nneg :: "number \<Rightarrow> number" where
  "nneg x = (case x of Finite a \<Rightarrow> Finite (- a) | PosInfinity \<Rightarrow> NegInfinity
             | NegInfinity \<Rightarrow> PosInfinity | NaN \<Rightarrow> NaN)"

definition positive :: "number \<Rightarrow> bool" where
  "positive x = (case x of Finite a \<Rightarrow> 0 < a | PosInfinity \<Rightarrow> True | _ \<Rightarrow> False)"

definition nadd :: "(real \<Rightarrow> number) \<Rightarrow> number \<Rightarrow> number \<Rightarrow> number" where
  "nadd rnd x y =
     (case (x, y) of
        (Finite a, Finite b) \<Rightarrow> rnd (a + b)
      | (Finite a, _) \<Rightarrow> y
      | (_, Finite b) \<Rightarrow> x
      | _ \<Rightarrow> if x = y then x else NaN)"

definition nsub :: "(real \<Rightarrow> number) \<Rightarrow> number \<Rightarrow> number \<Rightarrow> number" where
  "nsub rnd x y = nadd rnd x (nneg y)"

definition nmul :: "(real \<Rightarrow> number) \<Rightarrow> number \<Rightarrow> number \<Rightarrow> number" where
  "nmul rnd x y =
     (case (x, y) of
        (Finite a, Finite b) \<Rightarrow> rnd (a * b)
      | _ \<Rightarrow> if x = NaN \<or> y = NaN \<or> x = Finite 0 \<or> y = Finite 0 then NaN
             else if positive x = positive y then PosInfinity else NegInfinity)"

definition nsqrt :: "(real \<Rightarrow> number) \<Rightarrow> number \<Rightarrow> number" where
  "nsqrt rnd x =
     (case x of
        Finite a \<Rightarrow> if a < 0 then NaN else rnd (sqrt a)
      | PosInfinity \<Rightarrow> PosInfinity
      | _ \<Rightarrow> NaN)"

definition ndiv :: "(real \<Rightarrow> number) \<Rightarrow> number \<Rightarrow> number \<Rightarrow> number" where
  "ndiv rnd x y =
     (case (x, y) of
        (Finite a, Finite b) \<Rightarrow>
          if b = 0 then (if a = 0 then NaN else if 0 < a then PosInfinity else NegInfinity)
          else rnd (a / b)
      | (Finite a, _) \<Rightarrow> if y = NaN then NaN else Finite 0
      | (_, Finite b) \<Rightarrow>
          if x = NaN then NaN
          else if positive x = (0 \<le> b) then PosInfinity else NegInfinity
      | _ \<Rightarrow> NaN)"

definition orOne :: "number \<Rightarrow> number" where
  "orOne x = (if x = NaN \<or> x = Finite 0 then Finite 1 else x)"

definition element :: "real list \<Rightarrow> nat \<Rightarrow> number" where
  "element v i = (if i < length v then Finite (v ! i) else NaN)"

fun cosineLoop :: "(real \<Rightarrow> number) \<Rightarrow> real list \<Rightarrow> real list \<Rightarrow> nat list
                     \<Rightarrow> number \<times> number \<times> number \<Rightarrow> number \<times> number \<times> number" where
  "cosineLoop rnd a b [] acc = acc"
| "cosineLoop rnd a b (i # is) (dot, na, nb) =
     (let va = element a i; vb = element b i
      in cosineLoop rnd a b is
           (nadd rnd dot (nmul rnd va vb), nadd rnd na (nmul rnd va va),
            nadd rnd nb (nmul rnd vb vb)))"

definition cosineSimilarityWith :: "(real \<Rightarrow> number) \<Rightarrow> real list \<Rightarrow> real list \<Rightarrow> number" where
  "cosineSimilarityWith rnd a b =
     (let (dot, na, nb) = cosineLoop rnd a b [0 ..< length a] (Finite 0, Finite 0, Finite 0);
          denom = orOne (nmul rnd (nsqrt rnd na) (nsqrt rnd nb))
      in ndiv rnd dot denom)"

definition cosineSimilarity :: "real list \<Rightarrow> real list \<Rightarrow> number" where
  "cosineSimilarity a b = cosineSimilarityWith roundToDouble a b"


text \<open>
  \<open>Array.prototype.sort\<close> with a comparator is stable: an element goes before the
  first element that the comparator does not put before it. A comparator result of
  \<open>NaN\<close> counts as \<open>0\<close>. When a score is \<open>NaN\<close> the comparator \<open>b.score - a.score\<close>
  is not a consistent ordering, and the language then leaves the order of the result
  to the implementation; \<open>sortBy\<close> is one such order. The claims proved below do not
  depend on it: they use only whether the selection is empty, or rank a single chunk.
\<close>

fun insertBy :: "('a \<Rightarrow> 'a \<Rightarrow> number) \<Rightarrow> 'a \<Rightarrow> 'a list \<Rightarrow> 'a list" where
  "insertBy cmp x [] = [x]"
| "insertBy cmp x (y # ys) =
     (if (case cmp x y of Finite d \<Rightarrow> d \<le> 0 | PosInfinity \<Rightarrow> False | NegInfinity \<Rightarrow> True
          | NaN \<Rightarrow> True)
      then x # y # ys
      else y # insertBy cmp x ys)"

definition sortBy :: "('a \<Rightarrow> 'a \<Rightarrow> number) \<Rightarrow> 'a list \<Rightarrow> 'a list" where
  "sortBy cmp xs = foldr (insertBy cmp) xs []"

text \<open>
  \<^verbatim>\<open>
  const vectorRetrieveRelevantChunks = async (chunks: string[], query: string, topK = 6) => {
    try {
      const inputs = [...chunks, query];
      const vectors = await embedTexts(inputs);
      if (vectors.length !== inputs.length) return chunks;
      const queryVec = vectors[vectors.length - 1];
      const chunkVecs = vectors.slice(0, vectors.length - 1);
      const scored = chunkVecs
        .map((vec, idx) => ({ idx, score: cosineSimilarity(vec, queryVec) }))
        .sort((a, b) => b.score - a.score);
      const selected = scored
        .slice(0, Math.min(topK, scored.length))
        .map((s) => chunks[s.idx]);
      return selected.length > 0 ? selected : chunks;
    } catch {
      return chunks;
    }
  };
  \<close>
\<close>

definition rankChunks :: "jsstring list \<Rightarrow> nat \<Rightarrow> real list list \<Rightarrow> jsstring list" where
  "rankChunks chunks topK vectors =
     (let queryVec = vectors ! (length vectors - 1);
          chunkVecs = take (length vectors - 1) vectors;
          scored = sortBy (\<lambda>a b. nsub roundToDouble (snd b) (snd a))
                     (map (\<lambda>(idx, vec). (idx, cosineSimilarity vec queryVec))
                        (enumerate 0 chunkVecs));
          selected = map (\<lambda>s. chunks ! fst s) (take (min topK (length scored)) scored)
      in if length selected > 0 then selected else chunks)"

definition vectorRetrieveRelevantChunks ::
  "env \<Rightarrow> jsstring list \<Rightarrow> jsstring \<Rightarrow> nat \<Rightarrow> world \<Rightarrow> (exn + jsstring list) \<times> world" where
  "vectorRetrieveRelevantChunks E chunks query topK w =
     (let inputs = chunks @ [query];
          (r, w') = embedTexts E inputs w
      in (tryCatch
            (case r of
               Inl e \<Rightarrow> Inl e
             | Inr vectors \<Rightarrow>
                 if length vectors \<noteq> length inputs then Inr chunks
                 else Inr (rankChunks chunks topK vectors))
            (\<lambda>e. Inr chunks),
          w'))"

text \<open>
  \<^verbatim>\<open>
  export const simulateImpact = async (documentText: string, scenario: string) => {
    if (!scenario.trim()) return "Please enter a scenario to simulate.";
    const chunks = chunkText(documentText, 1500, 200);
    const relevantChunks = await vectorRetrieveRelevantChunks(chunks, scenario, 6);
    if (relevantChunks.length === 0) {
      return "Could not find any information in the document relevant to your scenario. ...";
    }
    const context = relevantChunks.join("\n\n---\n\n");
    const output = await chatComplete(
      [ { role: "system", content: 'You help people with below-average literacy. ...' },
        { role: "user",
          content: `Scenario: ${scenario}\n\nContract Excerpts:\n${context}\n\nWrite the answer in very simple words. Keep it under 300 words.` } ],
      "llama-3.3-70b-versatile", 0.2);
    return output;
  };
  \<close>
  \<open>answerFrom\<close> is the part of the function after the retrieval.
\<close>

definition enterScenarioMessage :: jsstring where
  "enterScenarioMessage = str ''Please enter a scenario to simulate.''"

definition notFoundMessage :: jsstring where
  "notFoundMessage =
     str ''Could not find any information in the document relevant to your scenario. Please try rephrasing your question or check if the topic is covered in the contract.''"

definition answererSystemPrompt :: jsstring where
  \<open>answererSystemPrompt =
     str ''You help people with below-average literacy. Answer simply in plain words. Use up to 5 bullet points, each 1'' @
     endash @
     str ''2 short sentences, no jargon. If helpful, include 1 tiny example starting with "Example:".''\<close>

definition simulateMessages :: "jsstring \<Rightarrow> jsstring \<Rightarrow> message list" where
  "simulateMessages scenario ctx =
     [Message (str ''system'') answererSystemPrompt,
      Message (str ''user'')
        (str ''Scenario: '' @ scenario @ nl @ nl @ str ''Contract Excerpts:'' @ nl @ ctx @ nl @ nl @
         str ''Write the answer in very simple words. Keep it under 300 words.'')]"

definition answerFrom :: "env \<Rightarrow> jsstring \<Rightarrow> jsstring list \<Rightarrow> world \<Rightarrow> (exn + jsstring) \<times> world" where
  "answerFrom E scenario relevantChunks w =
     (if length relevantChunks = 0 then (Inr notFoundMessage, w)
      else (let ctx = joinWith (nl @ nl @ str ''---'' @ nl @ nl) relevantChunks
            in chatComplete E SimulateImpact (simulateMessages scenario ctx)
                 (Some (str ''llama-3.3-70b-versatile'')) (Some (2 / 10)) w))"

definition simulateImpact ::
  "env \<Rightarrow> jsstring \<Rightarrow> jsstring \<Rightarrow> world \<Rightarrow> ((exn + jsstring) \<times> world) option" where
  "simulateImpact E documentText scenario w =
     (if trim scenario = [] then Some (Inr enterScenarioMessage, w)
      else case chunkText documentText 1500 200 of
             None \<Rightarrow> None
           | Some chunks \<Rightarrow>
               (let (r, w1) = vectorRetrieveRelevantChunks E chunks scenario 6 w
                in case r of
                     Inl e \<Rightarrow> Some (Inl e, w1)
                   | Inr relevantChunks \<Rightarrow> Some (answerFrom E scenario relevantChunks w1)))"

section \<open>Example runs\<close>

text \<open>
  Environments for the concrete runs below. \<open>exampleParse\<close> agrees with
  \<open>JSON.parse\<close> on the three texts that the example services return and rejects
  every other text.
\<close>

definition exampleParse :: "jsstring \<Rightarrow> exn + json" where
  \<open>exampleParse s =
     (if s = str ''{"clauses":["c1","c2"]}''
      then Inr (JObj [(str ''clauses'', JArr [JStr (str ''c1''), JStr (str ''c2'')])])
      else if s = str ''{"clauses":["c3"]}''
      then Inr (JObj [(str ''clauses'', JArr [JStr (str ''c3'')])])
      else if s = str ''{"summary":"s","clauses":null}''
      then Inr (JObj [(str ''summary'', JStr (str ''s'')), (str ''clauses'', JNull)])
      else Inl SyntaxError)\<close>

definition exampleChat :: "nat \<Rightarrow> chat_request \<Rightarrow> exn + jsstring" where
  \<open>exampleChat n req =
     (if n = 0 then Inr (str ''```json'' @ nl @ str ''{"clauses":["c1","c2"]}'' @ nl @ str ''```'')
      else if n = 1 then Inr (str ''{"clauses":["c3"]}'')
      else Inr (str ''{"summary":"s","clauses":null}''))\<close>

definition failingChat :: "nat \<Rightarrow> chat_request \<Rightarrow> exn + jsstring" where
  \<open>failingChat n req =
     (if n = 0 then Inr (str ''{"clauses":["c1","c2"]}'')
      else Inl (Error (str ''Failed to fetch'')))\<close>

definition failingEmbed :: "nat \<Rightarrow> jsstring list \<Rightarrow> exn + real list list" where
  "failingEmbed n inputs = Inl (Error (str ''Failed to fetch''))"

definition shortEmbed :: "nat \<Rightarrow> jsstring list \<Rightarrow> exn + real list list" where
  "shortEmbed n inputs = Inr (replicate (length inputs - 1) [1, 0])"

definition exampleEmbed :: "nat \<Rightarrow> jsstring list \<Rightarrow> exn + real list list" where
  "exampleEmbed n inputs = Inr (replicate (length inputs - 1) [1, 0] @ [[0, 1]])"

definition exampleEnv :: env where
  "exampleEnv =
     \<lparr>JSON_parse = exampleParse, numberToString = (\<lambda>x. str ''0''),
      chatService = exampleChat, embedService = exampleEmbed\<rparr>"

definition failingEnv :: env where
  "failingEnv =
     \<lparr>JSON_parse = exampleParse, numberToString = (\<lambda>x. str ''0''),
      chatService = failingChat, embedService = failingEmbed\<rparr>"

definition shortEnv :: env where
  "shortEnv =
     \<lparr>JSON_parse = exampleParse, numberToString = (\<lambda>x. str ''0''),
      chatService = exampleChat, embedService = shortEmbed\<rparr>"

definition answeringChat :: "nat \<Rightarrow> chat_request \<Rightarrow> exn + jsstring" where
  "answeringChat n req = Inr (str ''You may have to pay a late fee.'')"

definition answeringEnv :: env where
  "answeringEnv =
     \<lparr>JSON_parse = exampleParse, numberToString = (\<lambda>x. str ''0''),
      chatService = answeringChat, embedService = exampleEmbed\<rparr>"

definition emptyWorld :: world where
  "emptyWorld = \<lparr>calls = [], progress = []\<rparr>"

text \<open>A document of 4001 characters, which the default parameters cut into two chunks.\<close>

definition twoChunkDocument :: jsstring where
  "twoChunkDocument = replicate 4001 0x61"

section \<open>Properties of the chunker\<close>

lemma substring_take_drop:
  "substring s (int a) (int a + int n) = take n (drop a s)"
  by (auto simp: substring_def Let_def min_def max_def)

lemma chunkCount_le: "0 < step \<Longrightarrow> len \<le> k * step \<Longrightarrow> chunkCount len step \<le> k"
proof -
  assume s: "0 < step" and l: "len \<le> k * step"
  have "len + step - 1 < (k + 1) * step" using s l by simp
  hence "(len + step - 1) div step < k + 1"
    using s by (simp add: div_less_iff_less_mult)
  thus ?thesis by (simp add: chunkCount_def)
qed

lemma chunkCount_gt: "0 < step \<Longrightarrow> k * step < len \<Longrightarrow> k < chunkCount len step"
proof -
  assume s: "0 < step" and l: "k * step < len"
  have "(k + 1) * step \<le> len + step - 1" using s l by simp
  hence "k + 1 \<le> (len + step - 1) div step"
    using s by (simp add: less_eq_div_iff_mult_less_eq)
  thus ?thesis by (simp add: chunkCount_def)
qed

lemma chunkLoop_closed:
  assumes "overlap < chunkSize"
  shows "chunkLoop text (int chunkSize) (int overlap) (int (k * (chunkSize - overlap))) acc =
         Some (acc @ map (\<lambda>j. take chunkSize (drop (j * (chunkSize - overlap)) text))
                       [k ..< chunkCount (length text) (chunkSize - overlap)])"
proof (induction "length text - k * (chunkSize - overlap)" arbitrary: k acc rule: less_induct)
  case less
  let ?step = "chunkSize - overlap"
  have step: "0 < ?step" using assms by simp
  show ?case
  proof (cases "k * ?step < length text")
    case False
    hence "chunkCount (length text) ?step \<le> k" using step by (simp add: chunkCount_le)
    hence emp: "[k ..< chunkCount (length text) ?step] = []" by simp
    have c: "\<not> int (k * ?step) < int (length text)"
      unfolding of_nat_less_iff by (rule False)
    show ?thesis
      by (subst chunkLoop.simps) (simp only: c emp if_False list.map append_Nil2)
  next
    case True
    hence kn: "k < chunkCount (length text) ?step" using step by (rule chunkCount_gt[rotated])
    have e: "int chunkSize - int overlap = int ?step" using assms by simp
    have nxt: "int (k * ?step) + (int chunkSize - int overlap) = int (Suc k * ?step)"
      unfolding e by simp
    have dec: "length text - Suc k * ?step < length text - k * ?step"
      using True step by simp
    have "chunkLoop text (int chunkSize) (int overlap) (int (k * ?step)) acc =
          chunkLoop text (int chunkSize) (int overlap) (int (Suc k * ?step))
            (acc @ [take chunkSize (drop (k * ?step) text)])"
    proof -
      have c: "int (k * ?step) < int (length text)"
        unfolding of_nat_less_iff by (rule True)
      show ?thesis
        by (subst chunkLoop.simps) (simp only: c if_True nxt substring_take_drop)
    qed
    also have "\<dots> = Some ((acc @ [take chunkSize (drop (k * ?step) text)]) @
                 map (\<lambda>j. take chunkSize (drop (j * ?step) text))
                   [Suc k ..< chunkCount (length text) ?step])"
      using less[OF dec] .
    also have "\<dots> = Some (acc @ map (\<lambda>j. take chunkSize (drop (j * ?step) text))
                   [k ..< chunkCount (length text) ?step])"
      using kn by (simp add: upt_conv_Cons)
    finally show ?thesis .
  qed
qed

lemma chunkLoop_stuck:
  assumes "chunkLoop t chunkSize overlap i chunks = Some r"
  shows "chunkSize \<le> overlap \<longrightarrow> int (length t) \<le> i"
proof (rule chunkLoop.raw_induct
    [where P = "\<lambda>t chunkSize overlap i chunks r. chunkSize \<le> overlap \<longrightarrow> int (length t) \<le> i",
     OF _ assms])
  fix loop t and chunkSize overlap i :: int and chunks r :: "jsstring list"
  assume IH: "\<And>t chunkSize overlap i chunks r.
                loop t chunkSize overlap i chunks = Some r \<Longrightarrow>
                chunkSize \<le> overlap \<longrightarrow> int (length t) \<le> i"
    and body: "(if i < int (length t)
                then loop t chunkSize overlap (i + (chunkSize - overlap))
                       (chunks @ [substring t i (i + chunkSize)])
                else Some chunks) = Some r"
  show "chunkSize \<le> overlap \<longrightarrow> int (length t) \<le> i"
  proof (cases "i < int (length t)")
    case True
    with body have "loop t chunkSize overlap (i + (chunkSize - overlap))
             (chunks @ [substring t i (i + chunkSize)]) = Some r" by simp
    from IH[OF this] True show ?thesis by auto
  next
    case False
    then show ?thesis by simp
  qed
qed

lemma chunkText_diverges:
  "chunkSize \<le> overlap \<Longrightarrow> chunkSize < length t \<Longrightarrow> chunkText t chunkSize overlap = None"
proof (rule ccontr)
  assume a: "chunkSize \<le> overlap" "chunkSize < length t" and n: "chunkText t chunkSize overlap \<noteq> None"
  then obtain r where "chunkLoop t (int chunkSize) (int overlap) 0 [] = Some r"
    by (auto simp: chunkText_def)
  from chunkLoop_stuck[OF this] a show False by simp
qed

lemma chunkText_closed:
  assumes "overlap < chunkSize" "chunkSize < length t"
  shows "chunkText t chunkSize overlap =
         Some (map (\<lambda>j. take chunkSize (drop (j * (chunkSize - overlap)) t))
                       [0 ..< chunkCount (length t) (chunkSize - overlap)])"
  using chunkLoop_closed[OF assms(1), of t 0 "[]"] assms(2) by (simp add: chunkText_def)

lemma concat_prefixes:
  "concat (map (\<lambda>j. take step (drop (j * step) t)) [0 ..< m]) = take (m * step) t"
proof (induction m)
  case 0 show ?case by simp
next
  case (Suc m)
  have "take (m * step) t @ take step (drop (m * step) t) = take (m * step + step) t"
    by (simp add: take_add)
  with Suc show ?case by (simp add: add.commute)
qed


lemma chunkCount_pos: "0 < step \<Longrightarrow> 0 < len \<Longrightarrow> 0 < chunkCount len step"
  using chunkCount_gt[of step 0 len] by simp

lemma chunkCount_upper: "0 < step \<Longrightarrow> len \<le> chunkCount len step * step"
proof (rule ccontr)
  assume s: "0 < step" and "\<not> len \<le> chunkCount len step * step"
  hence "chunkCount len step * step < len" by simp
  from chunkCount_gt[OF s this] show False by simp
qed

lemma chunkCount_lower:
  "0 < step \<Longrightarrow> 0 < len \<Longrightarrow> (chunkCount len step - 1) * step < len"
proof (rule ccontr)
  assume s: "0 < step" and l: "0 < len" and "\<not> (chunkCount len step - 1) * step < len"
  hence "len \<le> (chunkCount len step - 1) * step" by simp
  from chunkCount_le[OF s this] chunkCount_pos[OF s l] show False by simp
qed

lemma butlast_upt0: "butlast [0 ..< n] = [0 ..< n - 1]"
  by (cases n) simp_all

text \<open>
  Claim C2 (chunk coverage). For every text and every \<open>overlap < chunkSize\<close>,
  \<open>chunkText\<close> returns a non-empty list of chunks, and the first
  \<open>chunkSize - overlap\<close> characters of every chunk but the last, followed by the
  whole last chunk, are the text again: nothing is lost and nothing is repeated.
\<close>

theorem chunk_coverage:
  "overlap < chunkSize \<Longrightarrow>
     \<exists>chunks. chunkText t chunkSize overlap = Some chunks \<and> chunks \<noteq> [] \<and>
       concat (map (take (chunkSize - overlap)) (butlast chunks)) @ last chunks = t"
proof (cases "length t \<le> chunkSize")
  case True
  then show ?thesis by (simp add: chunkText_def)
next
  case False
  assume ov: "overlap < chunkSize"
  let ?step = "chunkSize - overlap"
  let ?n = "chunkCount (length t) ?step"
  let ?f = "\<lambda>j. take chunkSize (drop (j * ?step) t)"
  have step: "0 < ?step" using ov by simp
  have len: "0 < length t" using False by linarith
  have n: "0 < ?n" by (rule chunkCount_pos[OF step len])
  have lo: "(?n - 1) * ?step < length t" by (rule chunkCount_lower[OF step len])
  have hi: "length t \<le> ?n * ?step" by (rule chunkCount_upper[OF step])
  have cl: "chunkText t chunkSize overlap = Some (map ?f [0 ..< ?n])"
    using chunkText_closed[OF ov] False by simp
  have ne: "map ?f [0 ..< ?n] \<noteq> []" using n by simp
  have bl: "butlast (map ?f [0 ..< ?n]) = map ?f [0 ..< ?n - 1]"
    by (simp add: map_butlast[symmetric] butlast_upt0)
  have "map (take ?step) (map ?f [0 ..< ?n - 1]) = map (\<lambda>j. take ?step (drop (j * ?step) t)) [0 ..< ?n - 1]"
    by (simp add: min_def)
  hence pre: "concat (map (take ?step) (butlast (map ?f [0 ..< ?n]))) = take ((?n - 1) * ?step) t"
    by (simp only: bl concat_prefixes)
  have "?n * ?step = (?n - 1) * ?step + ?step" using n by (cases ?n) simp_all
  hence "length t \<le> (?n - 1) * ?step + ?step" using hi by simp
  hence "length t - (?n - 1) * ?step \<le> ?step" by (simp only: le_diff_conv add.commute)
  moreover have "?step \<le> chunkSize" by simp
  ultimately have "length t - (?n - 1) * ?step \<le> chunkSize" by (rule order_trans)
  hence la: "last (map ?f [0 ..< ?n]) = drop ((?n - 1) * ?step) t"
    using n by (simp add: last_map)
  have "concat (map (take ?step) (butlast (map ?f [0 ..< ?n]))) @ last (map ?f [0 ..< ?n]) = t"
    by (simp only: pre la append_take_drop_id)
  with cl ne show ?thesis by blast
qed

theorem chunk_coverage_witness:
  "(2::nat) < 4 \<and> (\<exists>chunks. chunkText (str ''abcde'') 4 2 = Some chunks \<and> chunks \<noteq> [] \<and>
       concat (map (take (4 - 2)) (butlast chunks)) @ last chunks = str ''abcde'')
   \<and> chunkText (str ''abcde'') 4 2 = Some [str ''abcd'', str ''cde'', str ''e'']"
proof -
  have h: "(2::nat) < 4" by simp
  have e: "chunkText (str ''abcde'') 4 2 = Some [str ''abcd'', str ''cde'', str ''e'']"
    by (simp add: chunkText_def chunkLoop.simps substring_def str_def)
  from h chunk_coverage[OF h, of "str ''abcde''"] e show ?thesis by simp
qed

text \<open>
  The loop on a bounded array. With a step that is not positive the index stays
  inside the text, every pass pushes a chunk, and the pass that finds the array full
  throws. With a positive step the loop returns the windows of the closed form if
  the array has room for them, and throws otherwise.
\<close>

lemma chunkLoopArray_stuck:
  "chunkSize \<le> overlap \<Longrightarrow> i < int (length t) \<Longrightarrow>
     chunkLoopArray maxLength t chunkSize overlap i chunks = Inl RangeError"
proof (induction "maxLength - length chunks" arbitrary: i chunks rule: less_induct)
  case less
  show ?case
  proof (cases "length chunks < maxLength")
    case False
    with less.prems show ?thesis by (subst chunkLoopArray.simps) simp
  next
    case True
    have nxt: "i + (chunkSize - overlap) < int (length t)" using less.prems by simp
    have dec: "maxLength - length (chunks @ [substring t i (i + chunkSize)]) < maxLength - length chunks"
      using True by simp
    from less.hyps[OF dec less.prems(1) nxt] True less.prems(2)
    show ?thesis by (subst chunkLoopArray.simps) simp
  qed
qed

lemma chunkLoopArray_closed:
  assumes "overlap < chunkSize"
  shows "length acc \<le> maxLength \<Longrightarrow>
         chunkLoopArray maxLength t (int chunkSize) (int overlap) (int (k * (chunkSize - overlap))) acc =
         (if length acc + (chunkCount (length t) (chunkSize - overlap) - k) \<le> maxLength
          then Inr (acc @ map (\<lambda>j. take chunkSize (drop (j * (chunkSize - overlap)) t))
                       [k ..< chunkCount (length t) (chunkSize - overlap)])
          else Inl RangeError)"
proof (induction "length t - k * (chunkSize - overlap)" arbitrary: k acc rule: less_induct)
  case less
  let ?step = "chunkSize - overlap"
  let ?n = "chunkCount (length t) ?step"
  have step: "0 < ?step" using assms by simp
  show ?case
  proof (cases "k * ?step < length t")
    case False
    hence "?n \<le> k" using step by (simp add: chunkCount_le)
    hence emp: "[k ..< ?n] = []" and z: "?n - k = 0" by simp_all
    have c: "\<not> int (k * ?step) < int (length t)"
      unfolding of_nat_less_iff by (rule False)
    show ?thesis using less.prems
      by (subst chunkLoopArray.simps) (simp only: c emp z if_False list.map append_Nil2, simp)
  next
    case True
    hence kn: "k < ?n" using step by (rule chunkCount_gt[rotated])
    have e: "int chunkSize - int overlap = int ?step" using assms by simp
    have nxt: "int (k * ?step) + (int chunkSize - int overlap) = int (Suc k * ?step)"
      unfolding e by simp
    have dec: "length t - Suc k * ?step < length t - k * ?step"
      using True step by simp
    have c: "int (k * ?step) < int (length t)"
      unfolding of_nat_less_iff by (rule True)
    show ?thesis
    proof (cases "length acc < maxLength")
      case False
      with kn have "\<not> length acc + (?n - k) \<le> maxLength" by simp
      with False c show ?thesis by (subst chunkLoopArray.simps) simp
    next
      case room: True
      have "chunkLoopArray maxLength t (int chunkSize) (int overlap) (int (k * ?step)) acc =
            chunkLoopArray maxLength t (int chunkSize) (int overlap) (int (Suc k * ?step))
              (acc @ [take chunkSize (drop (k * ?step) t)])"
        by (subst chunkLoopArray.simps) (simp only: c room if_True nxt substring_take_drop)
      also have "\<dots> =
         (if length (acc @ [take chunkSize (drop (k * ?step) t)]) + (?n - Suc k) \<le> maxLength
          then Inr ((acc @ [take chunkSize (drop (k * ?step) t)]) @
                  map (\<lambda>j. take chunkSize (drop (j * ?step) t)) [Suc k ..< ?n])
          else Inl RangeError)"
        using room by (intro less.hyps[OF dec]) simp
      also have "\<dots> =
         (if length acc + (?n - k) \<le> maxLength
          then Inr (acc @ map (\<lambda>j. take chunkSize (drop (j * ?step) t)) [k ..< ?n])
          else Inl RangeError)"
        using kn by (auto simp: upt_conv_Cons)
      finally show ?thesis .
    qed
  qed
qed

lemma chunkTextArray_closed:
  assumes "overlap < chunkSize" "chunkSize < length t"
  shows "chunkTextArray maxLength t chunkSize overlap =
         (if chunkCount (length t) (chunkSize - overlap) \<le> maxLength
          then Inr (map (\<lambda>j. take chunkSize (drop (j * (chunkSize - overlap)) t))
                       [0 ..< chunkCount (length t) (chunkSize - overlap)])
          else Inl RangeError)"
  using chunkLoopArray_closed[OF assms(1), of "[]" maxLength t 0] assms(2)
  by (simp add: chunkTextArray_def)

lemma chunkCount_le_length: "0 < step \<Longrightarrow> chunkCount len step \<le> len"
  by (rule chunkCount_le) simp_all

text \<open>
  Claim C3 (with \<open>overlap \<ge> chunkSize\<close> and a text longer than \<open>chunkSize\<close> the chunker
  does not terminate) fails as stated. The loop does not advance, but each pass
  pushes a chunk, and an array holds at most \<open>2^32 - 1\<close> elements: the call ends by
  throwing \<open>RangeError: Invalid array length\<close>, for \<open>'abcde'\<close> with \<open>chunkSize = 4\<close> and
  \<open>overlap = 4\<close> or \<open>6\<close>.
\<close>

theorem chunkText_array_limit_counterexample:
  "(4::nat) \<le> 4 \<and> 4 < length (str ''abcde'') \<and>
   chunkTextArray languageMaxArrayLength (str ''abcde'') 4 4 = Inl RangeError \<and>
   chunkTextArray languageMaxArrayLength (str ''abcde'') 4 6 = Inl RangeError"
proof -
  have l: "4 < length (str ''abcde'')" by (simp add: str_def)
  hence p: "0 < int (length (str ''abcde''))" by linarith
  have "chunkTextArray languageMaxArrayLength (str ''abcde'') 4 4 = Inl RangeError"
    using l chunkLoopArray_stuck[OF _ p, of 4 4 languageMaxArrayLength "[]"]
    by (simp add: chunkTextArray_def)
  moreover have "chunkTextArray languageMaxArrayLength (str ''abcde'') 4 6 = Inl RangeError"
    using l chunkLoopArray_stuck[OF _ p, of 4 6 languageMaxArrayLength "[]"]
    by (simp add: chunkTextArray_def)
  ultimately show ?thesis using l by simp
qed

text \<open>
  Claim C3, amended. With \<open>overlap < chunkSize\<close> the chunker returns its chunks
  whenever they fit into an array, so for every text of at most \<open>maxLength\<close>
  characters, and the loop without the array bound returns the same chunks. With
  \<open>overlap \<ge> chunkSize\<close> and a text longer than \<open>chunkSize\<close> the step
  \<open>chunkSize - overlap\<close> is not positive and the chunker returns no chunk list: it
  pushes until the array is full and throws \<open>RangeError\<close>, whatever the bound of the
  array (without a bound the loop would run forever). Nothing rejects such
  parameters.
\<close>

theorem chunkText_array_limit:
  "(overlap < chunkSize \<and>
      (length t \<le> chunkSize \<or> chunkCount (length t) (chunkSize - overlap) \<le> maxLength) \<longrightarrow>
      (\<exists>chunks. chunkTextArray maxLength t chunkSize overlap = Inr chunks \<and>
                chunkText t chunkSize overlap = Some chunks)) \<and>
   (overlap < chunkSize \<and> length t \<le> maxLength \<longrightarrow>
      (\<exists>chunks. chunkTextArray maxLength t chunkSize overlap = Inr chunks)) \<and>
   (chunkSize \<le> overlap \<and> chunkSize < length t \<longrightarrow>
      int chunkSize - int overlap \<le> 0 \<and>
      chunkTextArray maxLength t chunkSize overlap = Inl RangeError \<and>
      chunkText t chunkSize overlap = None)"
proof (intro conjI impI)
  assume a: "overlap < chunkSize \<and>
      (length t \<le> chunkSize \<or> chunkCount (length t) (chunkSize - overlap) \<le> maxLength)"
  show "\<exists>chunks. chunkTextArray maxLength t chunkSize overlap = Inr chunks \<and>
                chunkText t chunkSize overlap = Some chunks"
  proof (cases "length t \<le> chunkSize")
    case True
    then show ?thesis by (simp add: chunkTextArray_def chunkText_def)
  next
    case False
    with a have ov: "overlap < chunkSize" and lt: "chunkSize < length t"
      and fit: "chunkCount (length t) (chunkSize - overlap) \<le> maxLength" by simp_all
    from chunkTextArray_closed[OF ov lt, of maxLength] chunkText_closed[OF ov lt] fit
    show ?thesis by simp
  qed
next
  assume a: "overlap < chunkSize \<and> length t \<le> maxLength"
  show "\<exists>chunks. chunkTextArray maxLength t chunkSize overlap = Inr chunks"
  proof (cases "length t \<le> chunkSize")
    case True
    then show ?thesis by (simp add: chunkTextArray_def)
  next
    case False
    with a have ov: "overlap < chunkSize" and lt: "chunkSize < length t" by simp_all
    have "chunkCount (length t) (chunkSize - overlap) \<le> length t"
      using ov by (intro chunkCount_le_length) simp
    with a have "chunkCount (length t) (chunkSize - overlap) \<le> maxLength" by simp
    with chunkTextArray_closed[OF ov lt, of maxLength] show ?thesis by simp
  qed
next
  assume a: "chunkSize \<le> overlap \<and> chunkSize < length t"
  thus "int chunkSize - int overlap \<le> 0" by simp
  from a have "int chunkSize \<le> int overlap" "0 < int (length t)" by linarith+
  from chunkLoopArray_stuck[OF this] a
  show "chunkTextArray maxLength t chunkSize overlap = Inl RangeError"
    by (simp add: chunkTextArray_def)
  from a show "chunkText t chunkSize overlap = None" by (simp add: chunkText_diverges)
qed

theorem chunkText_array_limit_witness:
  "(2::nat) < 4 \<and> chunkCount (length (str ''abcde'')) (4 - 2) \<le> languageMaxArrayLength \<and>
   length (str ''abcde'') \<le> languageMaxArrayLength \<and>
   chunkTextArray languageMaxArrayLength (str ''abcde'') 4 2 = Inr [str ''abcd'', str ''cde'', str ''e''] \<and>
   chunkText (str ''abcde'') 4 2 = Some [str ''abcd'', str ''cde'', str ''e''] \<and>
   (4::nat) \<le> 4 \<and> 4 < length (str ''abcde'') \<and>
   chunkTextArray languageMaxArrayLength (str ''abcde'') 4 4 = Inl RangeError \<and>
   chunkText (str ''abcde'') 4 4 = None"
proof -
  have h1: "(2::nat) < 4" by simp
  have h2: "chunkCount (length (str ''abcde'')) (4 - 2) \<le> languageMaxArrayLength"
    by (simp add: chunkCount_def str_def languageMaxArrayLength_def)
  have h3: "length (str ''abcde'') \<le> languageMaxArrayLength"
    by (simp add: str_def languageMaxArrayLength_def)
  have h4: "(4::nat) \<le> 4" "4 < length (str ''abcde'')" by (simp_all add: str_def)
  have e: "chunkText (str ''abcde'') 4 2 = Some [str ''abcd'', str ''cde'', str ''e'']"
    by (simp add: chunkText_def chunkLoop.simps substring_def str_def)
  from chunkText_array_limit[of 2 4 "str ''abcde''" languageMaxArrayLength] h1 h2 e
  have a: "chunkTextArray languageMaxArrayLength (str ''abcde'') 4 2 =
             Inr [str ''abcd'', str ''cde'', str ''e'']" by auto
  from chunkText_array_limit[of 4 4 "str ''abcde''" languageMaxArrayLength] h4
  have b: "chunkTextArray languageMaxArrayLength (str ''abcde'') 4 4 = Inl RangeError"
          "chunkText (str ''abcde'') 4 4 = None" by simp_all
  from h1 h2 h3 h4 e a b show ?thesis by simp
qed

text \<open>
  Claim C5 (consecutive chunks overlap by exactly \<open>overlap\<close>, only the last chunk
  may be short) fails as stated. The text \<open>abcde\<close> with \<open>chunkSize = 4\<close> and
  \<open>overlap = 2\<close> gives the chunks \<open>abcd\<close>, \<open>cde\<close>, \<open>e\<close>: the second chunk is
  not the last one and is shorter than \<open>chunkSize\<close>, and it shares one character
  with its successor, not two.
\<close>

theorem consecutive_overlap_counterexample:
  "(2::nat) < 4 \<and> 4 < length (str ''abcde'') \<and>
   chunkText (str ''abcde'') 4 2 = Some [str ''abcd'', str ''cde'', str ''e''] \<and>
   length ([str ''abcd'', str ''cde'', str ''e''] ! 1) < 4 \<and>
   Suc 1 < length [str ''abcd'', str ''cde'', str ''e''] \<and>
   length ([str ''abcd'', str ''cde'', str ''e''] ! 2) < 2 \<and>
   drop (length ([str ''abcd'', str ''cde'', str ''e''] ! 1) - 2) ([str ''abcd'', str ''cde'', str ''e''] ! 1)
     \<noteq> take 2 ([str ''abcd'', str ''cde'', str ''e''] ! 2)"
  by (simp add: chunkText_def chunkLoop.simps substring_def str_def)

text \<open>
  The same happens with the default parameters: a text of 7500 characters is cut into
  chunks of 4000, 3900 and 300 characters, and the last chunk lies inside the second.
\<close>

lemma default_parameters_clipped_chunks:
  assumes "length t = 7500"
  shows "chunkText t 4000 400 = Some [take 4000 t, take 4000 (drop 3600 t), drop 7200 t]"
    and "length (take 4000 (drop 3600 t)) = 3900"
    and "length (drop 7200 t) = 300"
proof -
  have n: "chunkCount 7500 3600 = 3" by (simp add: chunkCount_def)
  have u: "[0 ..< 3] = [0, 1, 2]" by (simp add: upt_rec)
  show "chunkText t 4000 400 = Some [take 4000 t, take 4000 (drop 3600 t), drop 7200 t]"
    using chunkText_closed[of 400 4000 t] assms n u by simp
  show "length (take 4000 (drop 3600 t)) = 3900" using assms by simp
  show "length (drop 7200 t) = 300" using assms by simp
qed

text \<open>
  Claim C5, amended. For \<open>overlap < chunkSize < length text\<close>, chunk \<open>j\<close> is the
  window of \<open>chunkSize\<close> characters starting at offset \<open>j * (chunkSize - overlap)\<close>,
  clipped at the end of the text; it is shorter than \<open>chunkSize\<close> exactly when its
  window passes the end of the text. Every chunk of full length that has a successor
  overlaps it by exactly \<open>overlap\<close> characters: its last \<open>overlap\<close> characters are
  the first \<open>overlap\<close> characters of the successor.
\<close>

theorem consecutive_overlap:
  assumes "overlap < chunkSize" "chunkSize < length t"
  shows "\<exists>chunks. chunkText t chunkSize overlap = Some chunks \<and>
     (\<forall>j < length chunks.
        chunks ! j = take chunkSize (drop (j * (chunkSize - overlap)) t) \<and>
        (length (chunks ! j) < chunkSize \<longleftrightarrow> length t < j * (chunkSize - overlap) + chunkSize)) \<and>
     (\<forall>j. Suc j < length chunks \<and> length (chunks ! j) = chunkSize \<longrightarrow>
        overlap \<le> length (chunks ! Suc j) \<and>
        drop (chunkSize - overlap) (chunks ! j) = take overlap (chunks ! Suc j))"
proof -
  let ?step = "chunkSize - overlap"
  let ?n = "chunkCount (length t) ?step"
  let ?f = "\<lambda>j. take chunkSize (drop (j * ?step) t)"
  let ?cs = "map ?f [0 ..< ?n]"
  have step: "0 < ?step" using assms by simp
  have cl: "chunkText t chunkSize overlap = Some ?cs" by (rule chunkText_closed[OF assms])
  have nth: "\<And>j. j < length ?cs \<Longrightarrow> ?cs ! j = ?f j" by simp
  have starts: "\<And>j. j < length ?cs \<Longrightarrow> j * ?step < length t"
  proof (rule ccontr)
    fix j assume j: "j < length ?cs" and "\<not> j * ?step < length t"
    hence "length t \<le> j * ?step" by simp
    from chunkCount_le[OF step this] j show False by simp
  qed
  have A: "\<forall>j < length ?cs. ?cs ! j = ?f j \<and>
        (length (?cs ! j) < chunkSize \<longleftrightarrow> length t < j * ?step + chunkSize)"
  proof (intro allI impI)
    fix j assume j: "j < length ?cs"
    from starts[OF j] show "?cs ! j = ?f j \<and>
        (length (?cs ! j) < chunkSize \<longleftrightarrow> length t < j * ?step + chunkSize)"
      unfolding nth[OF j] by auto
  qed
  have B: "\<forall>j. Suc j < length ?cs \<and> length (?cs ! j) = chunkSize \<longrightarrow>
        overlap \<le> length (?cs ! Suc j) \<and>
        drop ?step (?cs ! j) = take overlap (?cs ! Suc j)"
  proof (intro allI impI)
    fix j assume a: "Suc j < length ?cs \<and> length (?cs ! j) = chunkSize"
    hence j: "j < length ?cs" and sj: "Suc j < length ?cs" by simp_all
    from a have "length (?f j) = chunkSize" unfolding nth[OF j] by simp
    hence "min chunkSize (length t - j * ?step) = chunkSize" by simp
    hence full: "j * ?step + chunkSize \<le> length t"
      using assms(1) by (cases "j * ?step \<le> length t") (simp_all add: min_def split: if_splits)
    have so: "?step + overlap = chunkSize" using assms by simp
    have l: "overlap \<le> length (?f (Suc j))" using full assms by simp
    have "drop ?step (?f j) = take (chunkSize - ?step) (drop (?step + j * ?step) t)"
      by (simp add: drop_take)
    also have "\<dots> = take overlap (drop (Suc j * ?step) t)" using assms by simp
    also have "\<dots> = take overlap (?f (Suc j))" using assms by (simp add: min_def)
    finally have eq: "drop ?step (?f j) = take overlap (?f (Suc j))" .
    show "overlap \<le> length (?cs ! Suc j) \<and>
        drop ?step (?cs ! j) = take overlap (?cs ! Suc j)"
      unfolding nth[OF j] nth[OF sj] using l eq by (rule conjI)
  qed
  from cl A B show ?thesis by blast
qed

theorem consecutive_overlap_witness:
  "(2::nat) < 4 \<and> 4 < length (str ''abcdefg'') \<and>
   (\<exists>chunks. chunkText (str ''abcdefg'') 4 2 = Some chunks \<and>
     (\<forall>j < length chunks.
        chunks ! j = take 4 (drop (j * (4 - 2)) (str ''abcdefg'')) \<and>
        (length (chunks ! j) < 4 \<longleftrightarrow> length (str ''abcdefg'') < j * (4 - 2) + 4)) \<and>
     (\<forall>j. Suc j < length chunks \<and> length (chunks ! j) = 4 \<longrightarrow>
        2 \<le> length (chunks ! Suc j) \<and>
        drop (4 - 2) (chunks ! j) = take 2 (chunks ! Suc j))) \<and>
   chunkText (str ''abcdefg'') 4 2 = Some [str ''abcd'', str ''cdef'', str ''efg'', str ''g'']"
proof -
  have h1: "(2::nat) < 4" by simp
  have h2: "4 < length (str ''abcdefg'')" by (simp add: str_def)
  have e: "chunkText (str ''abcdefg'') 4 2 = Some [str ''abcd'', str ''cdef'', str ''efg'', str ''g'']"
    by (simp add: chunkText_def chunkLoop.simps substring_def str_def)
  from consecutive_overlap[OF h1 h2] h1 h2 e show ?thesis by blast
qed

section \<open>The calls of the extractor and the join of their promises\<close>

lemma analyzeChunk_world:
  "snd (analyzeChunk E chunk role w) =
     w\<lparr>calls := calls w @ [ChatCall AnalyzeChunk (ChatRequest (analyzeChunkMessages chunk role) None None)]\<rparr>"
  by (simp add: analyzeChunk_def chatComplete_def)

lemma analyzeChunk_outcome:
  "fst (analyzeChunk E chunk role w) =
     (case chatService E (length (calls w)) (ChatRequest (analyzeChunkMessages chunk role) None None) of
        Inl e \<Rightarrow> Inl e
      | Inr out \<Rightarrow> (case tryParseJson E out of Inl e \<Rightarrow> Inl e | Inr parsed \<Rightarrow> Inr (clausesOrEmpty parsed)))"
  by (simp add: analyzeChunk_def chatComplete_def)

lemma analyzeChunk_outcome_cong:
  "length (calls w) = length (calls w') \<Longrightarrow>
     fst (analyzeChunk E chunk role w) = fst (analyzeChunk E chunk role w')"
  by (simp add: analyzeChunk_outcome)

text \<open>
  What \<open>analyzeChunk\<close> absorbs and what it does not: a response that does not parse
  gives the empty list; an exception of the chat call is thrown on.
\<close>

lemma analyzeChunk_parse_failure:
  "chatService E (length (calls w)) (ChatRequest (analyzeChunkMessages chunk role) None None) = Inr out \<Longrightarrow>
   JSON_parse E (cleaned out) = Inl e \<Longrightarrow>
   fst (analyzeChunk E chunk role w) = Inr (JArr [])"
  by (simp add: analyzeChunk_outcome tryParseJson_def tryCatch_def clausesOrEmpty_def)

lemma analyzeChunk_throws:
  "chatService E (length (calls w)) (ChatRequest (analyzeChunkMessages chunk role) None None) = Inl e \<Longrightarrow>
   fst (analyzeChunk E chunk role w) = Inl e"
  by (simp add: analyzeChunk_outcome)

lemma issueAll_calls:
  "calls (snd (issueAll E role chunks w)) =
     calls w @ map (\<lambda>c. ChatCall AnalyzeChunk (ChatRequest (analyzeChunkMessages c role) None None)) chunks"
proof (induction chunks arbitrary: w)
  case Nil
  show ?case by simp
next
  case (Cons c cs)
  show ?case
    using Cons[of "snd (analyzeChunk E c role w)"]
    by (simp add: split_beta Let_def analyzeChunk_world)
qed

lemma issueAll_progress: "progress (snd (issueAll E role chunks w)) = progress w"
proof (induction chunks arbitrary: w)
  case Nil
  show ?case by simp
next
  case (Cons c cs)
  show ?case
    using Cons[of "snd (analyzeChunk E c role w)"]
    by (simp add: split_beta Let_def analyzeChunk_world)
qed

lemma issueAll_length: "length (fst (issueAll E role chunks w)) = length chunks"
  by (induction chunks arbitrary: w) (simp_all add: split_beta Let_def)

lemma issueAll_nth:
  "i < length chunks \<Longrightarrow> length (calls wi) = length (calls w) + i \<Longrightarrow>
     fst (issueAll E role chunks w) ! i = fst (analyzeChunk E (chunks ! i) role wi)"
proof (induction chunks arbitrary: w i)
  case Nil
  then show ?case by simp
next
  case (Cons c cs)
  show ?case
  proof (cases i)
    case 0
    with Cons.prems show ?thesis
      by (simp add: split_beta Let_def analyzeChunk_outcome_cong[of wi w])
  next
    case (Suc j)
    with Cons.prems have j: "j < length cs"
      and l: "length (calls wi) = length (calls (snd (analyzeChunk E c role w))) + j"
      by (simp_all add: analyzeChunk_world)
    from Cons.IH[OF j l] Suc show ?thesis by (simp add: split_beta Let_def)
  qed
qed

lemma those_eq_Some: "those xs = Some vs \<longleftrightarrow> xs = map Some vs"
proof (induction xs arbitrary: vs)
  case Nil
  show ?case by auto
next
  case (Cons x xs)
  show ?case by (cases x) (auto simp: Cons split: option.splits)
qed

lemma settle_fulfilled:
  "settle order outcomes slots = Some (Inr vs) \<Longrightarrow> length slots = length outcomes \<Longrightarrow>
   (\<And>i v. i < length slots \<Longrightarrow> slots ! i = Some v \<Longrightarrow> outcomes ! i = Inr v) \<Longrightarrow>
   outcomes = map Inr vs"
proof (induction order arbitrary: slots)
  case Nil
  from Nil.prems(1) have s: "slots = map Some vs" by (simp add: those_eq_Some split: option.splits)
  show ?case
  proof (rule nth_equalityI)
    show "length outcomes = length (map Inr vs)" using s Nil.prems(2) by simp
  next
    fix i assume "i < length outcomes"
    with s Nil.prems(2) have "i < length slots" "slots ! i = Some (vs ! i)" by simp_all
    from Nil.prems(3)[OF this] \<open>i < length outcomes\<close> s Nil.prems(2)
    show "outcomes ! i = map Inr vs ! i" by simp
  qed
next
  case (Cons i order)
  show ?case
  proof (cases "i < length outcomes")
    case False
    with Cons.prems(1) have "settle order outcomes slots = Some (Inr vs)" by simp
    from Cons.IH[OF this Cons.prems(2)] Cons.prems(3) show ?thesis by blast
  next
    case True
    show ?thesis
    proof (cases "outcomes ! i")
      case (Inl e)
      with True Cons.prems(1) show ?thesis by simp
    next
      case (Inr v)
      with True Cons.prems(1) have st: "settle order outcomes (slots[i := Some v]) = Some (Inr vs)"
        by simp
      have len: "length (slots[i := Some v]) = length outcomes" using Cons.prems(2) by simp
      show ?thesis
      proof (rule Cons.IH[OF st len])
        fix j u assume "j < length (slots[i := Some v])" "slots[i := Some v] ! j = Some u"
        thus "outcomes ! j = Inr u"
          using Cons.prems(3)[of j u] Inr by (cases "j = i") simp_all
      qed
    qed
  qed
qed

lemma promiseAll_fulfilled:
  "promiseAll order outcomes = Some (Inr vs) \<Longrightarrow> outcomes = map Inr vs"
  unfolding promiseAll_def by (erule settle_fulfilled) simp_all

lemma settle_settles:
  "(\<And>i. i < length slots \<Longrightarrow> i \<in> set order \<or> slots ! i \<noteq> None) \<Longrightarrow>
   length slots = length outcomes \<Longrightarrow> \<exists>r. settle order outcomes slots = Some r"
proof (induction order arbitrary: slots)
  case Nil
  hence "\<forall>i < length slots. slots ! i \<noteq> None" by simp
  hence "slots = map Some (map the slots)"
    by (intro nth_equalityI) auto
  hence "those slots = Some (map the slots)" by (simp only: those_eq_Some)
  thus ?case by simp
next
  case (Cons i order)
  show ?case
  proof (cases "i < length outcomes")
    case False
    have "\<exists>r. settle order outcomes slots = Some r"
    proof (rule Cons.IH[OF _ Cons.prems(2)])
      fix j assume "j < length slots"
      with Cons.prems(1)[of j] False Cons.prems(2) show "j \<in> set order \<or> slots ! j \<noteq> None" by auto
    qed
    with False show ?thesis by simp
  next
    case True
    show ?thesis
    proof (cases "outcomes ! i")
      case (Inl e)
      with True show ?thesis by simp
    next
      case (Inr v)
      have "\<exists>r. settle order outcomes (slots[i := Some v]) = Some r"
      proof (rule Cons.IH)
        show "length (slots[i := Some v]) = length outcomes" using Cons.prems(2) by simp
      next
        fix j assume "j < length (slots[i := Some v])"
        with Cons.prems(1)[of j] show "j \<in> set order \<or> slots[i := Some v] ! j \<noteq> None"
          by (cases "j = i") auto
      qed
      with True Inr show ?thesis by simp
    qed
  qed
qed

lemma promiseAll_settles:
  "{..< length outcomes} \<subseteq> set order \<Longrightarrow> \<exists>r. promiseAll order outcomes = Some r"
  unfolding promiseAll_def by (rule settle_settles) auto

section \<open>Properties of the analysis pipeline\<close>

lemma callsBy_append:
  "calls w' = calls w @ cs \<Longrightarrow>
     callsBy who w' = callsBy who w @
       concat (map (\<lambda>c. case c of ChatCall p r \<Rightarrow> (if p = who then [r] else []) | EmbedCall _ \<Rightarrow> []) cs)"
  by (simp add: callsBy_def)

lemma synthesizeReport_calls:
  "\<exists>cs. calls (snd (synthesizeReport E clauses role w)) = calls w @ cs \<and>
        (cs = [] \<or> (\<exists>r. cs = [ChatCall SynthesizeReport r]))"
  by (auto simp: synthesizeReport_def chatComplete_def Let_def split: sum.splits)

lemma synthesizeReport_callsBy:
  "callsBy AnalyzeChunk (snd (synthesizeReport E clauses role w)) = callsBy AnalyzeChunk w"
proof -
  from synthesizeReport_calls[of E clauses role w] obtain cs where
    c: "calls (snd (synthesizeReport E clauses role w)) = calls w @ cs"
    and d: "cs = [] \<or> (\<exists>r. cs = [ChatCall SynthesizeReport r])" by blast
  from d show ?thesis unfolding callsBy_append[OF c] by auto
qed

lemma issueAll_callsBy:
  "callsBy AnalyzeChunk (snd (issueAll E role chunks w)) =
     callsBy AnalyzeChunk w @ map (\<lambda>c. ChatRequest (analyzeChunkMessages c role) None None) chunks"
proof -
  have "concat (map (\<lambda>c. case c of ChatCall p r \<Rightarrow> (if p = AnalyzeChunk then [r] else []) | EmbedCall _ \<Rightarrow> [])
          (map (\<lambda>c. ChatCall AnalyzeChunk (ChatRequest (analyzeChunkMessages c role) None None)) chunks))
        = map (\<lambda>c. ChatRequest (analyzeChunkMessages c role) None None) chunks"
    by (induction chunks) simp_all
  thus ?thesis unfolding callsBy_append[OF issueAll_calls] by simp
qed

lemma onProgress_callsBy: "callsBy who (onProgress msg w) = callsBy who w"
  by (simp add: callsBy_def onProgress_def)

lemma onProgress_calls: "calls (onProgress msg w) = calls w"
  by (simp add: onProgress_def)

lemma analyzeContract_extractor_calls:
  assumes "analyzeContract E order documentText role w = Some (r, w')"
  shows "\<exists>chunks. chunkText documentText 4000 400 = Some chunks \<and>
           callsBy AnalyzeChunk w' =
             callsBy AnalyzeChunk w @ map (\<lambda>c. ChatRequest (analyzeChunkMessages c role) None None) chunks"
proof -
  from assms obtain chunks where ch: "chunkText documentText 4000 400 = Some chunks"
    by (auto simp: analyzeContract_def Let_def split: option.splits)
  define w2 where "w2 = onProgress (str ''Analyzing '' @ decimal (length chunks) @
                                   str '' document section(s)...'') (onProgress (str ''Chunking document...'') w)"
  define w3 where "w3 = snd (issueAll E role chunks w2)"
  have c3: "callsBy AnalyzeChunk w3 =
             callsBy AnalyzeChunk w @ map (\<lambda>c. ChatRequest (analyzeChunkMessages c role) None None) chunks"
    unfolding w3_def issueAll_callsBy w2_def onProgress_callsBy ..
  from assms ch have "w' = w3 \<or> (\<exists>cl. w' = snd (synthesizeReport E cl role (onProgress (str ''Synthesizing final report...'') w3)))"
    unfolding analyzeContract_def Let_def w3_def w2_def
    by (auto simp: split_beta split: option.splits sum.splits if_splits)
  hence "callsBy AnalyzeChunk w' = callsBy AnalyzeChunk w3"
    by (auto simp: synthesizeReport_callsBy onProgress_callsBy)
  with c3 ch show ?thesis by simp
qed

lemma analyzeContract_returns:
  assumes "chunkText documentText 4000 400 = Some chunks" "{..< length chunks} \<subseteq> set order"
  shows "\<exists>r w'. analyzeContract E order documentText role w = Some (r, w')"
proof -
  define w2 where "w2 = onProgress (str ''Analyzing '' @ decimal (length chunks) @
                                   str '' document section(s)...'') (onProgress (str ''Chunking document...'') w)"
  have "{..< length (fst (issueAll E role chunks w2))} \<subseteq> set order"
    using assms(2) by (simp add: issueAll_length)
  from promiseAll_settles[OF this] obtain res where
    "promiseAll order (fst (issueAll E role chunks w2)) = Some res" by blast
  thus ?thesis
    unfolding analyzeContract_def Let_def using assms(1)
    by (auto simp: split_beta w2_def split: option.splits sum.splits if_splits)
qed

lemma flat_arrays: "flat (map JArr clauseLists) = concat clauseLists"
  by (induction clauseLists) (simp_all add: flat_def)

text \<open>
  Claim C8 (order preservation). Whenever \<open>analyzeContract\<close> returns a report, its
  \<open>clauses\<close> property is the flattened list of the values that \<open>analyzeChunk\<close>
  returned for chunk 0, chunk 1, and so on, in the order of the chunks. This holds
  for every order in which the calls complete, and whatever the synthesizer
  returned: a \<open>clauses\<close> property of the synthesizer's object is overwritten. When
  every chunk's value is an array, as the declared type says, the flattened list is
  the concatenation of the arrays.
\<close>

theorem order_preservation:
  assumes "analyzeContract E order documentText role w = Some (Inr report, w')"
  shows "\<exists>chunks results.
           chunkText documentText 4000 400 = Some chunks \<and> length results = length chunks \<and>
           (\<forall>i wi. i < length chunks \<and> length (calls wi) = length (calls w) + i \<longrightarrow>
                fst (analyzeChunk E (chunks ! i) role wi) = Inr (results ! i)) \<and>
           getField report (str ''clauses'') = Some (JArr (flat results)) \<and>
           (\<forall>clauseLists. results = map JArr clauseLists \<longrightarrow>
                getField report (str ''clauses'') = Some (JArr (concat clauseLists)))"
proof -
  from assms obtain chunks where ch: "chunkText documentText 4000 400 = Some chunks"
    by (auto simp: analyzeContract_def Let_def split: option.splits)
  define w2 where "w2 = onProgress (str ''Analyzing '' @ decimal (length chunks) @
                                   str '' document section(s)...'') (onProgress (str ''Chunking document...'') w)"
  define promises where "promises = fst (issueAll E role chunks w2)"
  from assms ch obtain results finalReport where
    pa: "promiseAll order promises = Some (Inr results)" and
    rep: "report = JObj (AList.update (str ''clauses'') (JArr (flat results)) (ownProps finalReport))"
    unfolding analyzeContract_def Let_def promises_def w2_def
    by (auto simp: split_beta split: option.splits sum.splits if_splits)
  from promiseAll_fulfilled[OF pa] have pr: "promises = map Inr results" .
  hence len: "length results = length chunks"
    using issueAll_length[of E role chunks w2] by (simp add: promises_def)
  have cw: "calls w2 = calls w" by (simp add: w2_def onProgress_calls)
  have nth: "\<forall>i (wi :: world). i < length chunks \<and> length (calls wi) = length (calls w) + i \<longrightarrow>
                fst (analyzeChunk E (chunks ! i) role wi) = Inr (results ! i)"
  proof (intro allI impI)
    fix i and wi :: world assume a: "i < length chunks \<and> length (calls wi) = length (calls w) + i"
    hence "promises ! i = fst (analyzeChunk E (chunks ! i) role wi)"
      unfolding promises_def using issueAll_nth[of i chunks wi w2 E role] cw by simp
    with pr a len show "fst (analyzeChunk E (chunks ! i) role wi) = Inr (results ! i)" by simp
  qed
  have g: "getField report (str ''clauses'') = Some (JArr (flat results))"
    by (simp add: rep update_conv')
  hence "\<forall>clauseLists. results = map JArr clauseLists \<longrightarrow>
           getField report (str ''clauses'') = Some (JArr (concat clauseLists))"
    by (simp add: flat_arrays)
  with ch len nth g show ?thesis by blast
qed

lemma analyzeContract_unfold:
  assumes "chunkText documentText 4000 400 = Some chunks"
  shows "analyzeContract E order documentText role w =
     (case promiseAll order (fst (issueAll E role chunks
               (onProgress (str ''Analyzing '' @ decimal (length chunks) @ str '' document section(s)...'')
                  (onProgress (str ''Chunking document...'') w)))) of
        None \<Rightarrow> None
      | Some (Inl e) \<Rightarrow> Some (Inl e, snd (issueAll E role chunks
               (onProgress (str ''Analyzing '' @ decimal (length chunks) @ str '' document section(s)...'')
                  (onProgress (str ''Chunking document...'') w))))
      | Some (Inr chunkResults) \<Rightarrow>
          if flat chunkResults = []
          then Some (Inl (Error noClausesMessage), snd (issueAll E role chunks
               (onProgress (str ''Analyzing '' @ decimal (length chunks) @ str '' document section(s)...'')
                  (onProgress (str ''Chunking document...'') w))))
          else (case synthesizeReport E (flat chunkResults) role
                       (onProgress (str ''Synthesizing final report...'')
                          (snd (issueAll E role chunks
                             (onProgress (str ''Analyzing '' @ decimal (length chunks) @
                                          str '' document section(s)...'')
                                (onProgress (str ''Chunking document...'') w))))) of
                  (Inl e, w5) \<Rightarrow> Some (Inl e, w5)
                | (Inr finalReport, w5) \<Rightarrow>
                    Some (Inr (JObj (AList.update (str ''clauses'') (JArr (flat chunkResults))
                                       (ownProps finalReport))), w5)))"
  unfolding analyzeContract_def Let_def using assms
  by (simp add: split_beta split: option.splits sum.splits prod.splits)

lemma twoChunkDocument_chunks:
  "chunkText twoChunkDocument 4000 400 = Some [replicate 4000 0x61, replicate 401 0x61]"
proof -
  have "chunkCount 4001 3600 = 2" by (simp add: chunkCount_def)
  moreover have "[0 ..< 2] = [0, 1]" by (simp add: upt_rec)
  ultimately show ?thesis
    using chunkText_closed[of 400 4000 twoChunkDocument]
    by (simp add: twoChunkDocument_def)
qed

lemmas parse_eval = tryParseJson_def cleaned_def trim_def stripLeadingFence_def stripTrailingFence_def
  isWhiteSpace_def asciiLower_def tryCatch_def exampleParse_def str_def nl_def clausesOrEmpty_def

lemma exampleChunk0:
  "length (calls w) = 0 \<Longrightarrow> fst (analyzeChunk exampleEnv chunk role w) = Inr (JArr [JStr (str ''c1''), JStr (str ''c2'')])"
  by (simp add: analyzeChunk_outcome exampleEnv_def exampleChat_def parse_eval)

lemma exampleChunk1:
  "length (calls w) = 1 \<Longrightarrow> fst (analyzeChunk exampleEnv chunk role w) = Inr (JArr [JStr (str ''c3'')])"
  by (simp add: analyzeChunk_outcome exampleEnv_def exampleChat_def parse_eval)

lemma exampleSynth:
  "length (calls w) = 2 \<Longrightarrow>
   fst (synthesizeReport exampleEnv [JStr (str ''c1''), JStr (str ''c2''), JStr (str ''c3'')] role w) =
     Inr (JObj [(str ''summary'', JStr (str ''s'')), (str ''clauses'', JNull)])"
  by (simp add: synthesizeReport_def clauseContext_def clauseLine_def toStrOpt_def
        enumerate_eq_zip upt_rec chatComplete_def exampleEnv_def exampleChat_def parse_eval
        split_beta)

theorem order_preservation_witness:
  "\<exists>w'. analyzeContract exampleEnv [1, 0] twoChunkDocument (str ''tenant'') emptyWorld =
          Some (Inr (JObj [(str ''summary'', JStr (str ''s'')),
                           (str ''clauses'', JArr [JStr (str ''c1''), JStr (str ''c2''), JStr (str ''c3'')])]), w') \<and>
        (\<exists>chunks results.
           chunkText twoChunkDocument 4000 400 = Some chunks \<and> length results = length chunks \<and>
           (\<forall>i wi. i < length chunks \<and> length (calls wi) = length (calls emptyWorld) + i \<longrightarrow>
                fst (analyzeChunk exampleEnv (chunks ! i) (str ''tenant'') wi) = Inr (results ! i)) \<and>
           getField (JObj [(str ''summary'', JStr (str ''s'')),
                           (str ''clauses'', JArr [JStr (str ''c1''), JStr (str ''c2''), JStr (str ''c3'')])])
              (str ''clauses'') = Some (JArr (flat results)) \<and>
           (\<forall>clauseLists. results = map JArr clauseLists \<longrightarrow>
                getField (JObj [(str ''summary'', JStr (str ''s'')),
                           (str ''clauses'', JArr [JStr (str ''c1''), JStr (str ''c2''), JStr (str ''c3'')])])
                  (str ''clauses'') = Some (JArr (concat clauseLists))))"
proof -
  let ?role = "str ''tenant''"
  let ?w2 = "onProgress (str ''Analyzing '' @ decimal (length [replicate 4000 (0x61::codeunit), replicate 401 0x61]) @ str '' document section(s)...'')
                  (onProgress (str ''Chunking document...'') emptyWorld)"
  have c2: "calls ?w2 = []" by (simp add: onProgress_def emptyWorld_def)
  have iss: "fst (issueAll exampleEnv ?role [replicate 4000 0x61, replicate 401 0x61] ?w2) =
               [Inr (JArr [JStr (str ''c1''), JStr (str ''c2'')]), Inr (JArr [JStr (str ''c3'')])]"
    by (simp add: split_beta Let_def exampleChunk0 exampleChunk1 analyzeChunk_world onProgress_calls emptyWorld_def)
  have pa: "promiseAll [1, 0] [Inr (JArr [JStr (str ''c1''), JStr (str ''c2'')]), Inr (JArr [JStr (str ''c3'')])]
              = Some (Inr [JArr [JStr (str ''c1''), JStr (str ''c2'')], JArr [JStr (str ''c3'')]])"
    by (simp add: promiseAll_def)
  have l3: "length (calls (onProgress (str ''Synthesizing final report...'')
              (snd (issueAll exampleEnv ?role [replicate 4000 0x61, replicate 401 0x61] ?w2)))) = 2"
    by (simp only: onProgress_calls issueAll_calls) (simp add: emptyWorld_def)
  obtain r w5 where sy: "synthesizeReport exampleEnv [JStr (str ''c1''), JStr (str ''c2''), JStr (str ''c3'')] ?role
          (onProgress (str ''Synthesizing final report...'')
              (snd (issueAll exampleEnv ?role [replicate 4000 0x61, replicate 401 0x61] ?w2))) = (r, w5)"
    by (cases "synthesizeReport exampleEnv [JStr (str ''c1''), JStr (str ''c2''), JStr (str ''c3'')] ?role
          (onProgress (str ''Synthesizing final report...'')
              (snd (issueAll exampleEnv ?role [replicate 4000 0x61, replicate 401 0x61] ?w2)))") 
  from exampleSynth[OF l3, of ?role] sy
  have r: "r = Inr (JObj [(str ''summary'', JStr (str ''s'')), (str ''clauses'', JNull)])" by simp
  have run: "analyzeContract exampleEnv [1, 0] twoChunkDocument ?role emptyWorld =
          Some (Inr (JObj [(str ''summary'', JStr (str ''s'')),
                           (str ''clauses'', JArr [JStr (str ''c1''), JStr (str ''c2''), JStr (str ''c3'')])]), w5)"
  proof -
    have fl: "flat [JArr [JStr (str ''c1''), JStr (str ''c2'')], JArr [JStr (str ''c3'')]] =
                [JStr (str ''c1''), JStr (str ''c2''), JStr (str ''c3'')]"
      by (simp add: flat_def)
    have up: "AList.update (str ''clauses'') (JArr [JStr (str ''c1''), JStr (str ''c2''), JStr (str ''c3'')])
                (ownProps (JObj [(str ''summary'', JStr (str ''s'')), (str ''clauses'', JNull)])) =
              [(str ''summary'', JStr (str ''s'')),
               (str ''clauses'', JArr [JStr (str ''c1''), JStr (str ''c2''), JStr (str ''c3'')])]"
      by (simp add: ownProps_def str_def)
    show ?thesis
      by (simp only: analyzeContract_unfold[OF twoChunkDocument_chunks] iss pa option.case sum.case
            fl list.distinct if_False sy r prod.case up)
  qed
  from order_preservation[OF run] run show ?thesis by blast
qed

lemma chunkText_9000:
  assumes "length t = 9000"
  shows "chunkText t 4000 400 = Some [substring t 0 4000, substring t 3600 7600, substring t 7200 11200]"
proof -
  have n: "chunkCount 9000 3600 = 3" by (simp add: chunkCount_def)
  have u: "[0 ..< 3] = [0, 1, 2]" by (simp add: upt_rec)
  have s0: "substring t 0 4000 = take 4000 (drop 0 t)"
    using substring_take_drop[of t 0 4000] by simp
  have s1: "substring t 3600 7600 = take 4000 (drop 3600 t)"
    using substring_take_drop[of t 3600 4000] by simp
  have s2: "substring t 7200 11200 = take 4000 (drop 7200 t)"
    using substring_take_drop[of t 7200 4000] by simp
  show ?thesis
    unfolding s0 s1 s2 using chunkText_closed[of 400 4000 t] assms n u by simp
qed

text \<open>
  Claim C9 (single-chunk shortcut and the end-to-end example). A text that is no
  longer than \<open>chunkSize\<close> is returned as the only chunk. For a document of 3000
  characters \<open>analyzeContract\<close> makes exactly one call of \<open>analyzeChunk\<close>, for the
  whole document. A document of 9000 characters is cut (size 4000, overlap 400) into
  exactly three chunks, which start at the offsets 0, 3600 and 7200, and
  \<open>analyzeContract\<close> makes exactly three calls of \<open>analyzeChunk\<close>, one for each of
  them. In both cases the call returns or throws as soon as every chunk's call has
  completed.
\<close>

theorem single_chunk_and_example:
  "(length t \<le> chunkSize \<longrightarrow> chunkText t chunkSize overlap = Some [t]) \<and>
   (length t = 3000 \<longrightarrow>
      chunkText t 4000 400 = Some [t] \<and>
      (\<forall>r w'. analyzeContract E order t role w = Some (r, w') \<longrightarrow>
         callsBy AnalyzeChunk w' =
           callsBy AnalyzeChunk w @ [ChatRequest (analyzeChunkMessages t role) None None]) \<and>
      (0 \<in> set order \<longrightarrow> (\<exists>r w'. analyzeContract E order t role w = Some (r, w')))) \<and>
   (length t = 9000 \<longrightarrow>
      chunkText t 4000 400 =
        Some [substring t 0 4000, substring t 3600 7600, substring t 7200 11200] \<and>
      (\<forall>r w'. analyzeContract E order t role w = Some (r, w') \<longrightarrow>
         callsBy AnalyzeChunk w' =
           callsBy AnalyzeChunk w @
           [ChatRequest (analyzeChunkMessages (substring t 0 4000) role) None None,
            ChatRequest (analyzeChunkMessages (substring t 3600 7600) role) None None,
            ChatRequest (analyzeChunkMessages (substring t 7200 11200) role) None None]) \<and>
      ({0, 1, 2} \<subseteq> set order \<longrightarrow> (\<exists>r w'. analyzeContract E order t role w = Some (r, w'))))"
proof (intro conjI impI allI)
  assume "length t \<le> chunkSize"
  thus "chunkText t chunkSize overlap = Some [t]" by (simp add: chunkText_def)
next
  assume "length t = 3000"
  thus "chunkText t 4000 400 = Some [t]" by (simp add: chunkText_def)
next
  fix r w' assume l: "length t = 3000" and a: "analyzeContract E order t role w = Some (r, w')"
  from l have "chunkText t 4000 400 = Some [t]" by (simp add: chunkText_def)
  with analyzeContract_extractor_calls[OF a]
  show "callsBy AnalyzeChunk w' =
           callsBy AnalyzeChunk w @ [ChatRequest (analyzeChunkMessages t role) None None]" by auto
next
  assume l: "length t = 3000" and o: "0 \<in> set order"
  from l have c: "chunkText t 4000 400 = Some [t]" by (simp add: chunkText_def)
  from o have "{..< length [t]} \<subseteq> set order" by auto
  from analyzeContract_returns[OF c this]
  show "\<exists>r w'. analyzeContract E order t role w = Some (r, w')" .
next
  assume "length t = 9000"
  thus "chunkText t 4000 400 =
        Some [substring t 0 4000, substring t 3600 7600, substring t 7200 11200]"
    by (rule chunkText_9000)
next
  fix r w' assume l: "length t = 9000" and a: "analyzeContract E order t role w = Some (r, w')"
  from analyzeContract_extractor_calls[OF a] chunkText_9000[OF l]
  show "callsBy AnalyzeChunk w' =
           callsBy AnalyzeChunk w @
           [ChatRequest (analyzeChunkMessages (substring t 0 4000) role) None None,
            ChatRequest (analyzeChunkMessages (substring t 3600 7600) role) None None,
            ChatRequest (analyzeChunkMessages (substring t 7200 11200) role) None None]" by auto
next
  assume l: "length t = 9000" and o: "{0, 1, 2} \<subseteq> set order"
  have "{..< length [substring t 0 4000, substring t 3600 7600, substring t 7200 11200]} = {0, 1, 2}"
    by auto
  with o have "{..< length [substring t 0 4000, substring t 3600 7600, substring t 7200 11200]}
                 \<subseteq> set order" by simp
  from analyzeContract_returns[OF chunkText_9000[OF l] this]
  show "\<exists>r w'. analyzeContract E order t role w = Some (r, w')" .
qed

theorem single_chunk_and_example_witness:
  "length (str ''abc'') \<le> 4 \<and> chunkText (str ''abc'') 4 2 = Some [str ''abc''] \<and>
   length (replicate 3000 (0x61 :: codeunit)) = 3000 \<and>
   chunkText (replicate 3000 0x61) 4000 400 = Some [replicate 3000 0x61] \<and>
   (\<exists>r w'. analyzeContract exampleEnv [0] (replicate 3000 0x61) (str ''tenant'') emptyWorld = Some (r, w') \<and>
      callsBy AnalyzeChunk w' =
        [ChatRequest (analyzeChunkMessages (replicate 3000 0x61) (str ''tenant'')) None None]) \<and>
   length (replicate 9000 (0x61 :: codeunit)) = 9000 \<and>
   chunkText (replicate 9000 0x61) 4000 400 =
     Some [replicate 4000 0x61, replicate 4000 0x61, replicate 1800 0x61] \<and>
   (\<exists>r w'. analyzeContract exampleEnv [2, 0, 1] (replicate 9000 0x61) (str ''tenant'') emptyWorld = Some (r, w') \<and>
      callsBy AnalyzeChunk w' =
        [ChatRequest (analyzeChunkMessages (replicate 4000 0x61) (str ''tenant'')) None None,
         ChatRequest (analyzeChunkMessages (replicate 4000 0x61) (str ''tenant'')) None None,
         ChatRequest (analyzeChunkMessages (replicate 1800 0x61) (str ''tenant'')) None None])"
proof -
  let ?a = "0x61 :: codeunit"
  let ?role = "str ''tenant''"
  have e: "callsBy AnalyzeChunk emptyWorld = []" by (simp add: callsBy_def emptyWorld_def)
  have s: "substring (replicate 9000 ?a) 0 4000 = replicate 4000 ?a"
          "substring (replicate 9000 ?a) 3600 7600 = replicate 4000 ?a"
          "substring (replicate 9000 ?a) 7200 11200 = replicate 1800 ?a"
    by (simp_all add: substring_def)
  have A: "length (str ''abc'') \<le> 4 \<and> chunkText (str ''abc'') 4 2 = Some [str ''abc'']"
    using single_chunk_and_example[of "str ''abc''" 4 2] by (simp add: str_def)
  have l3: "length (replicate 3000 ?a) = 3000" and l9: "length (replicate 9000 ?a) = 9000" by simp_all
  note T3 = single_chunk_and_example[of "replicate 3000 ?a" 4 2 exampleEnv "[0]" ?role emptyWorld]
  from T3 l3 have c3: "chunkText (replicate 3000 ?a) 4000 400 = Some [replicate 3000 ?a]" by blast
  from T3 l3 obtain r3 w3 where
    r3: "analyzeContract exampleEnv [0] (replicate 3000 ?a) ?role emptyWorld = Some (r3, w3)"
    by auto
  with T3 l3 have k3: "callsBy AnalyzeChunk w3 = callsBy AnalyzeChunk emptyWorld @
        [ChatRequest (analyzeChunkMessages (replicate 3000 ?a) ?role) None None]" by blast
  note T9 = single_chunk_and_example[of "replicate 9000 ?a" 4 2 exampleEnv "[2, 0, 1]" ?role emptyWorld]
  from T9 l9 have c9: "chunkText (replicate 9000 ?a) 4000 400 =
     Some [replicate 4000 ?a, replicate 4000 ?a, replicate 1800 ?a]" unfolding s by blast
  have "{0, 1, 2} \<subseteq> set [2, 0, 1 :: nat]" by simp
  with T9 l9 obtain r9 w9 where
    r9: "analyzeContract exampleEnv [2, 0, 1] (replicate 9000 ?a) ?role emptyWorld = Some (r9, w9)"
    by blast
  with T9 l9 have k9: "callsBy AnalyzeChunk w9 = callsBy AnalyzeChunk emptyWorld @
        [ChatRequest (analyzeChunkMessages (replicate 4000 ?a) ?role) None None,
         ChatRequest (analyzeChunkMessages (replicate 4000 ?a) ?role) None None,
         ChatRequest (analyzeChunkMessages (replicate 1800 ?a) ?role) None None]" unfolding s by blast
  from A l3 c3 r3 k3 l9 c9 r9 k9 show ?thesis unfolding e append_Nil by blast
qed

text \<open>
  Claim C1 (the extractor never throws; a failed chunk yields an empty clause list and
  the other chunks' clauses are kept) does not hold for this \<open>analyzeChunk\<close>. In the
  run below the model answers the call for the first chunk with two clauses and the
  call for the second chunk throws: \<open>analyzeChunk\<close> throws for the second chunk, and
  \<open>analyzeContract\<close> throws that same exception instead of returning the clauses of
  the first chunk.
\<close>

theorem extractor_failure_propagates:
  "fst (analyzeChunk failingEnv (replicate 4000 0x61) (str ''tenant'') emptyWorld) =
     Inr (JArr [JStr (str ''c1''), JStr (str ''c2'')]) \<and>
   fst (analyzeChunk failingEnv (replicate 401 0x61) (str ''tenant'')
          (snd (analyzeChunk failingEnv (replicate 4000 0x61) (str ''tenant'') emptyWorld))) =
     Inl (Error (str ''Failed to fetch'')) \<and>
   chunkText twoChunkDocument 4000 400 = Some [replicate 4000 0x61, replicate 401 0x61] \<and>
   map_option fst (analyzeContract failingEnv [0, 1] twoChunkDocument (str ''tenant'') emptyWorld) =
     Some (Inl (Error (str ''Failed to fetch'')))"
proof -
  let ?role = "str ''tenant''"
  have a0: "\<And>w chunk. length (calls w) = 0 \<Longrightarrow> fst (analyzeChunk failingEnv chunk ?role w) =
     Inr (JArr [JStr (str ''c1''), JStr (str ''c2'')])"
    by (simp add: analyzeChunk_outcome failingEnv_def failingChat_def parse_eval)
  have a1: "\<And>w chunk. length (calls w) = 1 \<Longrightarrow> fst (analyzeChunk failingEnv chunk ?role w) =
     Inl (Error (str ''Failed to fetch''))"
    by (simp add: analyzeChunk_outcome failingEnv_def failingChat_def)
  have b0: "fst (analyzeChunk failingEnv (replicate 4000 0x61) ?role emptyWorld) =
     Inr (JArr [JStr (str ''c1''), JStr (str ''c2'')])"
    by (rule a0) (simp add: emptyWorld_def)
  have b1: "fst (analyzeChunk failingEnv (replicate 401 0x61) ?role
          (snd (analyzeChunk failingEnv (replicate 4000 0x61) ?role emptyWorld))) =
     Inl (Error (str ''Failed to fetch''))"
    by (rule a1) (simp add: analyzeChunk_world emptyWorld_def)
  have iss: "fst (issueAll failingEnv ?role [replicate 4000 0x61, replicate 401 0x61]
               (onProgress (str ''Analyzing '' @
                    decimal (length [replicate 4000 (0x61::codeunit), replicate 401 0x61]) @
                    str '' document section(s)...'')
                  (onProgress (str ''Chunking document...'') emptyWorld))) =
               [Inr (JArr [JStr (str ''c1''), JStr (str ''c2'')]), Inl (Error (str ''Failed to fetch''))]"
    by (simp add: split_beta Let_def a0 a1 analyzeChunk_world onProgress_calls emptyWorld_def)
  have pa: "promiseAll [0, 1]
              [Inr (JArr [JStr (str ''c1''), JStr (str ''c2'')]), Inl (Error (str ''Failed to fetch''))]
              = Some (Inl (Error (str ''Failed to fetch'')))"
    by (simp add: promiseAll_def)
  have run: "map_option fst (analyzeContract failingEnv [0, 1] twoChunkDocument ?role emptyWorld) =
     Some (Inl (Error (str ''Failed to fetch'')))"
    by (simp only: analyzeContract_unfold[OF twoChunkDocument_chunks] iss pa option.case sum.case
          option.map fst_conv)
  from b0 b1 twoChunkDocument_chunks run show ?thesis by blast
qed

section \<open>Properties of the response parser and of the retrieval\<close>

text \<open>
  Claim C10 (the response parser is total). For every text \<open>tryParseJson\<close> returns
  and never throws: it returns what \<open>JSON.parse\<close> returns for the text after trimming,
  removal of a leading fence of three backticks with an optional \<open>json\<close>, removal of a
  trailing fence, and trimming again; when \<open>JSON.parse\<close> throws, it returns \<open>null\<close>.
  \<open>analyzeChunk\<close> and \<open>synthesizeReport\<close> both parse through this function.
\<close>

theorem tryParseJson_total:
  "tryParseJson E text =
     Inr (case JSON_parse E (trim (stripTrailingFence (stripLeadingFence (trim text)))) of
            Inl e \<Rightarrow> JNull
          | Inr v \<Rightarrow> v) \<and>
   (\<exists>v. tryParseJson E text = Inr v)"
  by (simp add: tryParseJson_def cleaned_def tryCatch_def split: sum.splits)

theorem tryParseJson_total_witness:
  \<open>tryParseJson exampleEnv (str '' ```JSON'' @ nl @ str ''{"clauses":["c3"]}'' @ nl @ str ''``` '') =
     Inr (JObj [(str ''clauses'', JArr [JStr (str ''c3'')])]) \<and>
   JSON_parse exampleEnv (str ''I cannot answer that.'') = Inl SyntaxError \<and>
   tryParseJson exampleEnv (str ''I cannot answer that.'') = Inr JNull\<close>
proof -
  have c1: \<open>trim (stripTrailingFence (stripLeadingFence
               (trim (str '' ```JSON'' @ nl @ str ''{"clauses":["c3"]}'' @ nl @ str ''``` '')))) =
            str ''{"clauses":["c3"]}''\<close>
    by (simp add: trim_def stripLeadingFence_def stripTrailingFence_def isWhiteSpace_def
          asciiLower_def str_def nl_def)
  have c2: \<open>trim (stripTrailingFence (stripLeadingFence (trim (str ''I cannot answer that.'')))) =
            str ''I cannot answer that.''\<close>
    by (simp add: trim_def stripLeadingFence_def stripTrailingFence_def isWhiteSpace_def
          asciiLower_def str_def nl_def)
  have p1: \<open>JSON_parse exampleEnv (str ''{"clauses":["c3"]}'') =
              Inr (JObj [(str ''clauses'', JArr [JStr (str ''c3'')])])\<close>
    by (simp add: exampleEnv_def exampleParse_def str_def)
  have p2: \<open>JSON_parse exampleEnv (str ''I cannot answer that.'') = Inl SyntaxError\<close>
    by (simp add: exampleEnv_def exampleParse_def str_def)
  from tryParseJson_total[of exampleEnv \<open>str '' ```JSON'' @ nl @ str ''{"clauses":["c3"]}'' @ nl @ str ''``` ''\<close>]
       tryParseJson_total[of exampleEnv \<open>str ''I cannot answer that.''\<close>] p2
  show ?thesis unfolding c1 c2 p1 p2 by simp
qed

lemma embedTexts_world:
  "snd (embedTexts E inputs w) = w\<lparr>calls := calls w @ [EmbedCall inputs]\<rparr>"
  "fst (embedTexts E inputs w) = embedService E (length (calls w)) inputs"
  by (simp_all add: embedTexts_def)

text \<open>
  Claim C7 (retrieval fallback). \<open>vectorRetrieveRelevantChunks\<close> never throws. It makes
  exactly one call of the embedding service, with the chunks followed by the query.
  When that call throws, or returns a number of vectors that differs from the number
  of inputs, the result is the list of chunks as it was given.
\<close>

theorem retrieval_fallback:
  "(\<exists>r. fst (vectorRetrieveRelevantChunks E chunks query topK w) = Inr r) \<and>
   calls (snd (vectorRetrieveRelevantChunks E chunks query topK w)) =
     calls w @ [EmbedCall (chunks @ [query])] \<and>
   (\<forall>e. embedService E (length (calls w)) (chunks @ [query]) = Inl e \<longrightarrow>
        fst (vectorRetrieveRelevantChunks E chunks query topK w) = Inr chunks) \<and>
   (\<forall>vectors. embedService E (length (calls w)) (chunks @ [query]) = Inr vectors \<and>
        length vectors \<noteq> length (chunks @ [query]) \<longrightarrow>
        fst (vectorRetrieveRelevantChunks E chunks query topK w) = Inr chunks)"
  by (auto simp: vectorRetrieveRelevantChunks_def embedTexts_def tryCatch_def Let_def
        split: sum.splits)

theorem retrieval_fallback_witness:
  "embedService failingEnv 0 ([str ''a'', str ''b''] @ [str ''q'']) = Inl (Error (str ''Failed to fetch'')) \<and>
   vectorRetrieveRelevantChunks failingEnv [str ''a'', str ''b''] (str ''q'') 6 emptyWorld =
     (Inr [str ''a'', str ''b''],
      \<lparr>calls = [EmbedCall [str ''a'', str ''b'', str ''q'']], progress = []\<rparr>) \<and>
   embedService shortEnv 0 ([str ''a'', str ''b''] @ [str ''q'']) = Inr [[1, 0], [1, 0]] \<and>
   length [[1, 0], [1, 0 :: real]] \<noteq> length ([str ''a'', str ''b''] @ [str ''q'']) \<and>
   vectorRetrieveRelevantChunks shortEnv [str ''a'', str ''b''] (str ''q'') 6 emptyWorld =
     (Inr [str ''a'', str ''b''],
      \<lparr>calls = [EmbedCall [str ''a'', str ''b'', str ''q'']], progress = []\<rparr>)"
proof -
  let ?chunks = "[str ''a'', str ''b'']"
  have f: "embedService failingEnv (length (calls emptyWorld)) (?chunks @ [str ''q'']) =
             Inl (Error (str ''Failed to fetch''))"
    by (simp add: failingEnv_def failingEmbed_def)
  have s: "embedService shortEnv (length (calls emptyWorld)) (?chunks @ [str ''q'']) = Inr [[1, 0], [1, 0]]"
    by (simp add: shortEnv_def shortEmbed_def numeral_2_eq_2)
  have n: "length [[1, 0], [1, 0 :: real]] \<noteq> length (?chunks @ [str ''q''])" by simp
  have e: "length (calls emptyWorld) = 0" by (simp add: emptyWorld_def)
  note F = retrieval_fallback[of failingEnv ?chunks "str ''q''" 6 emptyWorld]
  note S = retrieval_fallback[of shortEnv ?chunks "str ''q''" 6 emptyWorld]
  from F f have F1: "fst (vectorRetrieveRelevantChunks failingEnv ?chunks (str ''q'') 6 emptyWorld) = Inr ?chunks"
    by blast
  from S s n have S1: "fst (vectorRetrieveRelevantChunks shortEnv ?chunks (str ''q'') 6 emptyWorld) = Inr ?chunks"
    by blast
  have W: "\<And>E. snd (vectorRetrieveRelevantChunks E ?chunks (str ''q'') 6 emptyWorld) =
            \<lparr>calls = [EmbedCall [str ''a'', str ''b'', str ''q'']], progress = []\<rparr>"
    by (simp add: vectorRetrieveRelevantChunks_def embedTexts_def Let_def emptyWorld_def)
  from F1 S1 W f s n show ?thesis unfolding e by (simp add: prod_eq_iff)
qed

section \<open>Properties of the similarity\<close>

text \<open>Rounding: an integer below \<open>2^53\<close> is a double, and \<open>2^1024\<close> is out of range.\<close>

lemma roundToDouble_zero [simp]: "roundToDouble 0 = Finite 0"
  by (simp add: roundToDouble_def)

lemma roundHalfEven_of_int [simp]: "roundHalfEven (of_int m) = m"
  by (simp add: roundHalfEven_def)

lemma roundToDouble_representable:
  assumes k: "2 powr of_int k \<le> \<bar>x\<bar>" "\<bar>x\<bar> < 2 powr of_int (k + 1)"
    and r: "- 1022 \<le> k" "k < 1024"
    and m: "x = of_int m * 2 powr of_int (k - 52)"
  shows "roundToDouble x = Finite x"
proof -
  have pos: "0 < \<bar>x\<bar>" using k(1) by (smt (verit) powr_gt_zero)
  hence nz: "x \<noteq> 0" by simp
  have fl: "\<lfloor>log 2 \<bar>x\<bar>\<rfloor> = k"
    using k pos by (simp add: floor_log_eq_powr_iff)
  have e: "max \<lfloor>log 2 \<bar>x\<bar>\<rfloor> (- 1022) - 52 = k - 52" using fl r by simp
  have q: "x / 2 powr of_int (k - 52) = of_int m" using m by simp
  have "\<bar>x\<bar> < 2 powr of_int (k + 1)" by (rule k(2))
  also have "\<dots> \<le> 2 powr 1024" using r by (intro powr_mono) simp_all
  also have "\<dots> = 2 ^ 1024" by simp
  finally have small: "\<not> 2 ^ 1024 \<le> \<bar>x\<bar>" by simp
  show ?thesis
    unfolding roundToDouble_def Let_def e q roundHalfEven_of_int
    using nz small m by simp
qed





lemma roundToDouble_of_int:
  assumes "\<bar>n\<bar> < 2 ^ 53"
  shows "roundToDouble (of_int n) = Finite (of_int n)"
proof (cases "n = 0")
  case True
  then show ?thesis by simp
next
  case False
  define x :: real where "x = of_int n"
  define k where "k = \<lfloor>log 2 \<bar>x\<bar>\<rfloor>"
  have x1: "1 \<le> \<bar>x\<bar>" using False by (simp add: x_def flip: of_int_abs)
  hence xpos: "0 < \<bar>x\<bar>" by linarith
  have b: "2 powr of_int k \<le> \<bar>x\<bar>" "\<bar>x\<bar> < 2 powr of_int (k + 1)"
    using floor_log_eq_powr_iff[of "\<bar>x\<bar>" 2 k] xpos by (simp_all add: k_def)
  have "0 \<le> log 2 \<bar>x\<bar>" using x1 by simp
  hence k0: "0 \<le> k" by (simp add: k_def)
  have "\<bar>x\<bar> < 2 ^ 53" using assms by (simp add: x_def flip: of_int_abs)
  hence "log 2 \<bar>x\<bar> < 53"
    using xpos by (subst log_less_iff) simp_all
  hence k53: "k < 53" by (simp add: k_def floor_less_iff)
  define m where "m = n * 2 ^ nat (52 - k)"
  have p: "(2::real) ^ nat (52 - k) = 2 powr of_int (52 - k)"
    using k53 by (simp add: powr_realpow[symmetric])
  have "of_int m * 2 powr of_int (k - 52) = x * (2 powr of_int (52 - k) * 2 powr of_int (k - 52))"
    by (simp add: m_def x_def p)
  also have "2 powr of_int (52 - k) * 2 powr of_int (k - 52) = (1::real)"
    by (simp flip: powr_add)
  finally have m: "x = of_int m * 2 powr of_int (k - 52)" by simp
  have "roundToDouble x = Finite x"
    by (rule roundToDouble_representable[OF b _ _ m]) (use k0 k53 in simp_all)
  thus ?thesis by (simp add: x_def)
qed

lemma roundToDouble_small_ints:
  "roundToDouble 1 = Finite 1" "roundToDouble 2 = Finite 2" "roundToDouble 3 = Finite 3"
  "roundToDouble 9 = Finite 9" "roundToDouble 16 = Finite 16" "roundToDouble 25 = Finite 25"
  "roundToDouble 5 = Finite 5"
  using roundToDouble_of_int[of 1] roundToDouble_of_int[of 2] roundToDouble_of_int[of 3]
    roundToDouble_of_int[of 9] roundToDouble_of_int[of 16] roundToDouble_of_int[of 25]
    roundToDouble_of_int[of 5]
  by simp_all











lemma nmul_zero_left: "nmul roundToDouble (Finite 0) z = Finite 0 \<or> nmul roundToDouble (Finite 0) z = NaN"
  by (cases z) (simp_all add: nmul_def)

lemma nmul_zero_right: "nmul roundToDouble z (Finite 0) = Finite 0 \<or> nmul roundToDouble z (Finite 0) = NaN"
  by (cases z) (simp_all add: nmul_def)

lemma cosineLoop_zero_left:
  "\<forall>x \<in> set a. x = 0 \<Longrightarrow> \<forall>i \<in> set is. i < length a \<and> i < length b \<Longrightarrow>
     \<exists>nb'. cosineLoop roundToDouble a b is (Finite 0, Finite 0, nb) = (Finite 0, Finite 0, nb')"
proof (induction "is" arbitrary: nb)
  case Nil
  show ?case by simp
next
  case (Cons i "is")
  from Cons.prems have ea: "element a i = Finite 0" and eb: "element b i = Finite (b ! i)"
    by (simp_all add: element_def)
  have z: "nmul roundToDouble (Finite 0) (Finite (b ! i)) = Finite 0" "nmul roundToDouble (Finite 0) (Finite 0) = Finite 0"
    "nadd roundToDouble (Finite 0) (Finite 0) = Finite 0"
    by (simp_all add: nmul_def nadd_def)
  from Cons.IH[of "nadd roundToDouble nb (nmul roundToDouble (Finite (b ! i)) (Finite (b ! i)))"] Cons.prems
  show ?case by (simp add: ea eb z Let_def)
qed

lemma cosineLoop_zero_right:
  "\<forall>x \<in> set b. x = 0 \<Longrightarrow> \<forall>i \<in> set is. i < length a \<and> i < length b \<Longrightarrow>
     \<exists>na'. cosineLoop roundToDouble a b is (Finite 0, na, Finite 0) = (Finite 0, na', Finite 0)"
proof (induction "is" arbitrary: na)
  case Nil
  show ?case by simp
next
  case (Cons i "is")
  from Cons.prems have eb: "element b i = Finite 0" and ea: "element a i = Finite (a ! i)"
    by (simp_all add: element_def)
  have z: "nmul roundToDouble (Finite (a ! i)) (Finite 0) = Finite 0" "nmul roundToDouble (Finite 0) (Finite 0) = Finite 0"
    "nadd roundToDouble (Finite 0) (Finite 0) = Finite 0"
    by (simp_all add: nmul_def nadd_def)
  from Cons.IH[of "nadd roundToDouble na (nmul roundToDouble (Finite (a ! i)) (Finite (a ! i)))"] Cons.prems
  show ?case by (simp add: ea eb z Let_def)
qed

lemma zero_over_guarded:
  "d = Finite 0 \<or> d = NaN \<Longrightarrow> ndiv roundToDouble (Finite 0) (orOne d) = Finite 0"
  by (auto simp: orOne_def ndiv_def)

lemma cosineSimilarity_zero_vector:
  assumes "length a \<le> length b" "(\<forall>x \<in> set a. x = 0) \<or> (\<forall>x \<in> set b. x = 0)"
  shows "cosineSimilarity a b = Finite 0"
proof -
  have idx: "\<forall>i \<in> set [0 ..< length a]. i < length a \<and> i < length b" using assms(1) by auto
  have s0: "nsqrt roundToDouble (Finite 0) = Finite 0" by (simp add: nsqrt_def)
  from assms(2) show ?thesis
  proof
    assume "\<forall>x \<in> set a. x = 0"
    from cosineLoop_zero_left[OF this idx, of "Finite 0"] obtain nb' where
      "cosineLoop roundToDouble a b [0 ..< length a] (Finite 0, Finite 0, Finite 0) = (Finite 0, Finite 0, nb')"
      by blast
    thus ?thesis
      using nmul_zero_left[of "nsqrt roundToDouble nb'"]
      by (simp add: cosineSimilarity_def cosineSimilarityWith_def s0 zero_over_guarded)
  next
    assume "\<forall>x \<in> set b. x = 0"
    from cosineLoop_zero_right[OF this idx, of "Finite 0"] obtain na' where
      "cosineLoop roundToDouble a b [0 ..< length a] (Finite 0, Finite 0, Finite 0) = (Finite 0, na', Finite 0)"
      by blast
    thus ?thesis
      using nmul_zero_right[of "nsqrt roundToDouble na'"]
      by (simp add: cosineSimilarity_def cosineSimilarityWith_def s0 zero_over_guarded)
  qed
qed
















section \<open>Properties of the impact simulator\<close>

text \<open>The ranking on small examples: best first, at most \<open>topK\<close> chunks, never none.\<close>

lemma nmul_NaN: "nmul rnd x NaN = NaN"
  by (cases x) (simp_all add: nmul_def)

lemma nadd_NaN: "nadd rnd x NaN = NaN"
  by (cases x) (simp_all add: nadd_def)

lemma ndiv_NaN: "ndiv rnd NaN y = NaN"
  by (cases y) (simp_all add: ndiv_def)

lemma cosineSimilarity_examples:
  "cosineSimilarity [1, 0] [0, 1] = Finite 0"
  "cosineSimilarity [0, 1] [0, 1] = Finite 1"
  "cosineSimilarity [0, 0] [3, 4] = Finite 0"
  "cosineSimilarity [1, 2] [1] = NaN"
proof -
  show "cosineSimilarity [1, 0] [0, 1] = Finite 0"
    by (simp add: cosineSimilarity_def cosineSimilarityWith_def upt_rec element_def nadd_def
          nmul_def nsqrt_def orOne_def ndiv_def Let_def roundToDouble_small_ints)
  show "cosineSimilarity [0, 1] [0, 1] = Finite 1"
    by (simp add: cosineSimilarity_def cosineSimilarityWith_def upt_rec element_def nadd_def
          nmul_def nsqrt_def orOne_def ndiv_def Let_def roundToDouble_small_ints)
  show "cosineSimilarity [0, 0] [3, 4] = Finite 0"
    by (rule cosineSimilarity_zero_vector) simp_all
  have e: "element [1, 2] 0 = Finite 1" "element [1, 2] (Suc 0) = Finite 2"
    "element [1] 0 = Finite 1" "element [1] (Suc 0) = NaN"
    by (simp_all add: element_def)
  show "cosineSimilarity [1, 2] [1] = NaN"
    by (simp add: cosineSimilarity_def cosineSimilarityWith_def upt_rec e Let_def
          nmul_NaN nadd_NaN ndiv_NaN)
qed

lemma rankChunks_examples:
  "rankChunks [str ''a'', str ''b''] 6 [[1, 0], [0, 1], [0, 1]] = [str ''b'', str ''a'']"
  "rankChunks [str ''a'', str ''b''] 1 [[1, 0], [0, 1], [0, 1]] = [str ''b'']"
  "rankChunks [str ''a'', str ''b''] 0 [[1, 0], [0, 1], [0, 1]] = [str ''a'', str ''b'']"
  by (simp_all add: rankChunks_def Let_def enumerate_eq_zip upt_rec sortBy_def
        cosineSimilarity_examples nsub_def nadd_def nneg_def roundToDouble_small_ints)

lemma chunkText_nonempty:
  assumes "overlap < chunkSize"
  shows "\<exists>chunks. chunkText t chunkSize overlap = Some chunks \<and> chunks \<noteq> []"
proof (cases "length t \<le> chunkSize")
  case True
  then show ?thesis by (simp add: chunkText_def)
next
  case False
  hence "0 < length t" by linarith
  moreover have "0 < chunkSize - overlap" using assms by simp
  ultimately have "0 < chunkCount (length t) (chunkSize - overlap)"
    by (intro chunkCount_pos)
  with chunkText_closed[OF assms, of t] False show ?thesis by simp
qed

lemma rankChunks_nonempty: "chunks \<noteq> [] \<Longrightarrow> rankChunks chunks topK vectors \<noteq> []"
  by (simp add: rankChunks_def Let_def)

lemma retrieve_nonempty:
  assumes "chunks \<noteq> []"
  shows "\<exists>relevantChunks. fst (vectorRetrieveRelevantChunks E chunks query topK w) = Inr relevantChunks \<and>
           relevantChunks \<noteq> []"
  using assms rankChunks_nonempty[OF assms]
  by (auto simp: vectorRetrieveRelevantChunks_def embedTexts_def tryCatch_def Let_def
        split: sum.splits)

lemma retrieve_world:
  "snd (vectorRetrieveRelevantChunks E chunks query topK w) =
     w\<lparr>calls := calls w @ [EmbedCall (chunks @ [query])]\<rparr>"
  by (simp add: vectorRetrieveRelevantChunks_def embedTexts_def Let_def)

lemma rankChunks_single:
  assumes "length vectors = 2" "0 < topK"
  shows "rankChunks [c] topK vectors = [c]"
proof -
  from assms(1) obtain v0 v1 where v: "vectors = [v0, v1]"
    by (cases vectors; cases "tl vectors") auto
  show ?thesis using assms(2)
    by (simp add: v rankChunks_def Let_def enumerate_eq_zip sortBy_def upt_rec)
qed

lemma retrieve_empty_document:
  "fst (vectorRetrieveRelevantChunks E [[]] query 6 w) = Inr [[]]"
  by (auto simp: vectorRetrieveRelevantChunks_def embedTexts_def tryCatch_def Let_def
        rankChunks_single split: sum.splits)

text \<open>
  Claim C4 (for an empty document \<open>simulateImpact\<close> returns the
  could-not-find message without calling the chat model) fails as stated. For the
  empty document \<open>chunkText\<close> returns one chunk, the empty string; the retrieval
  returns that chunk; and the chat model is called with an empty excerpt. The result
  is the model's answer.
\<close>

theorem empty_document_counterexample:
  "trim (str ''What if I pay late?'') \<noteq> [] \<and>
   simulateImpact answeringEnv [] (str ''What if I pay late?'') emptyWorld =
     Some (Inr (str ''You may have to pay a late fee.''),
           \<lparr>calls = [EmbedCall [[], str ''What if I pay late?''],
                     ChatCall SimulateImpact
                       (ChatRequest (simulateMessages (str ''What if I pay late?'') [])
                          (Some (str ''llama-3.3-70b-versatile'')) (Some (2 / 10)))],
            progress = []\<rparr>) \<and>
   str ''You may have to pay a late fee.'' \<noteq> notFoundMessage"
proof -
  let ?q = "str ''What if I pay late?''"
  have t: "trim ?q \<noteq> []" by (simp add: trim_def str_def isWhiteSpace_def)
  have c: "chunkText [] 1500 200 = Some [[]]" by (simp add: chunkText_def)
  have r: "vectorRetrieveRelevantChunks answeringEnv [[]] ?q 6 emptyWorld =
             (Inr [[]], \<lparr>calls = [EmbedCall [[], ?q]], progress = []\<rparr>)"
    using retrieve_empty_document[of answeringEnv ?q emptyWorld]
      retrieve_world[of answeringEnv "[[]]" ?q 6 emptyWorld]
    by (simp add: prod_eq_iff emptyWorld_def)
  have a: "answerFrom answeringEnv ?q [[]] \<lparr>calls = [EmbedCall [[], ?q]], progress = []\<rparr> =
             (Inr (str ''You may have to pay a late fee.''),
              \<lparr>calls = [EmbedCall [[], ?q],
                     ChatCall SimulateImpact
                       (ChatRequest (simulateMessages ?q [])
                          (Some (str ''llama-3.3-70b-versatile'')) (Some (2 / 10)))],
            progress = []\<rparr>)"
    by (simp add: answerFrom_def chatComplete_def answeringEnv_def answeringChat_def)
  have s: "simulateImpact answeringEnv [] ?q emptyWorld =
     Some (Inr (str ''You may have to pay a late fee.''),
           \<lparr>calls = [EmbedCall [[], ?q],
                     ChatCall SimulateImpact
                       (ChatRequest (simulateMessages ?q [])
                          (Some (str ''llama-3.3-70b-versatile'')) (Some (2 / 10)))],
            progress = []\<rparr>)"
    using t by (simp only: simulateImpact_def c r a if_False option.case Let_def prod.case sum.case)
  have n: "str ''You may have to pay a late fee.'' \<noteq> notFoundMessage"
    by (simp add: notFoundMessage_def str_def)
  from t s n show ?thesis by blast
qed

text \<open>
  Claim C4, amended. If the retrieval yielded no chunk, \<open>simulateImpact\<close> would return
  the could-not-find message without a call of the chat model. The retrieval never
  yields an empty list: \<open>chunkText\<close> returns at least one chunk for every document
  (for the empty document the single chunk is the empty string), and the retrieval
  returns a non-empty selection or all the chunks. So for every document, the empty
  one included, and every scenario that is not blank, \<open>simulateImpact\<close> calls the
  chat model once, after the one call of the embedding service, and returns its
  answer or throws its exception.
\<close>

theorem simulateImpact_retrieval_nonempty:
  "answerFrom E scenario [] w = (Inr notFoundMessage, w) \<and>
   (trim scenario \<noteq> [] \<longrightarrow>
      (\<exists>chunks relevantChunks.
          chunkText documentText 1500 200 = Some chunks \<and> chunks \<noteq> [] \<and>
          fst (vectorRetrieveRelevantChunks E chunks scenario 6 w) = Inr relevantChunks \<and>
          relevantChunks \<noteq> [] \<and>
          simulateImpact E documentText scenario w =
            Some (chatComplete E SimulateImpact
                    (simulateMessages scenario (joinWith (nl @ nl @ str ''---'' @ nl @ nl) relevantChunks))
                    (Some (str ''llama-3.3-70b-versatile'')) (Some (2 / 10))
                    (w\<lparr>calls := calls w @ [EmbedCall (chunks @ [scenario])]\<rparr>)))) \<and>
   (trim scenario \<noteq> [] \<longrightarrow>
      chunkText [] 1500 200 = Some [[]] \<and>
      fst (vectorRetrieveRelevantChunks E [[]] scenario 6 w) = Inr [[]] \<and>
      simulateImpact E [] scenario w =
        Some (chatComplete E SimulateImpact (simulateMessages scenario [])
                (Some (str ''llama-3.3-70b-versatile'')) (Some (2 / 10))
                (w\<lparr>calls := calls w @ [EmbedCall [[], scenario]]\<rparr>)))"
proof (intro conjI impI)
  show "answerFrom E scenario [] w = (Inr notFoundMessage, w)" by (simp add: answerFrom_def)
next
  assume t: "trim scenario \<noteq> []"
  from chunkText_nonempty[of 200 1500 documentText] obtain chunks where
    c: "chunkText documentText 1500 200 = Some chunks" and ne: "chunks \<noteq> []" by auto
  from retrieve_nonempty[OF ne, of E scenario 6 w] obtain rel where
    r: "fst (vectorRetrieveRelevantChunks E chunks scenario 6 w) = Inr rel" and rne: "rel \<noteq> []"
    by blast
  have "simulateImpact E documentText scenario w =
            Some (chatComplete E SimulateImpact
                    (simulateMessages scenario (joinWith (nl @ nl @ str ''---'' @ nl @ nl) rel))
                    (Some (str ''llama-3.3-70b-versatile'')) (Some (2 / 10))
                    (w\<lparr>calls := calls w @ [EmbedCall (chunks @ [scenario])]\<rparr>))"
    using t c r rne retrieve_world[of E chunks scenario 6 w]
    by (simp add: simulateImpact_def split_beta Let_def answerFrom_def)
  with c ne r rne show "\<exists>chunks relevantChunks.
          chunkText documentText 1500 200 = Some chunks \<and> chunks \<noteq> [] \<and>
          fst (vectorRetrieveRelevantChunks E chunks scenario 6 w) = Inr relevantChunks \<and>
          relevantChunks \<noteq> [] \<and>
          simulateImpact E documentText scenario w =
            Some (chatComplete E SimulateImpact
                    (simulateMessages scenario (joinWith (nl @ nl @ str ''---'' @ nl @ nl) relevantChunks))
                    (Some (str ''llama-3.3-70b-versatile'')) (Some (2 / 10))
                    (w\<lparr>calls := calls w @ [EmbedCall (chunks @ [scenario])]\<rparr>))" by blast
next
  show "chunkText [] 1500 200 = Some [[]]" by (simp add: chunkText_def)
next
  show "fst (vectorRetrieveRelevantChunks E [[]] scenario 6 w) = Inr [[]]"
    by (rule retrieve_empty_document)
next
  assume t: "trim scenario \<noteq> []"
  have c: "chunkText [] 1500 200 = Some [[]]" by (simp add: chunkText_def)
  show "simulateImpact E [] scenario w =
        Some (chatComplete E SimulateImpact (simulateMessages scenario [])
                (Some (str ''llama-3.3-70b-versatile'')) (Some (2 / 10))
                (w\<lparr>calls := calls w @ [EmbedCall [[], scenario]]\<rparr>))"
    using t c retrieve_empty_document[of E scenario w] retrieve_world[of E "[[]]" scenario 6 w]
    by (simp add: simulateImpact_def split_beta Let_def answerFrom_def)
qed

theorem simulateImpact_retrieval_nonempty_witness:
  "trim (str ''What if I pay late?'') \<noteq> [] \<and>
   answerFrom answeringEnv (str ''What if I pay late?'') [] emptyWorld = (Inr notFoundMessage, emptyWorld) \<and>
   (\<exists>chunks relevantChunks.
          chunkText (str ''Rent is due on the first.'') 1500 200 = Some chunks \<and> chunks \<noteq> [] \<and>
          fst (vectorRetrieveRelevantChunks answeringEnv chunks (str ''What if I pay late?'') 6 emptyWorld) =
            Inr relevantChunks \<and>
          relevantChunks \<noteq> [] \<and>
          simulateImpact answeringEnv (str ''Rent is due on the first.'') (str ''What if I pay late?'') emptyWorld =
            Some (chatComplete answeringEnv SimulateImpact
                    (simulateMessages (str ''What if I pay late?'')
                       (joinWith (nl @ nl @ str ''---'' @ nl @ nl) relevantChunks))
                    (Some (str ''llama-3.3-70b-versatile'')) (Some (2 / 10))
                    (emptyWorld\<lparr>calls := calls emptyWorld @
                       [EmbedCall (chunks @ [str ''What if I pay late?''])]\<rparr>))) \<and>
   simulateImpact answeringEnv [] (str ''What if I pay late?'') emptyWorld =
        Some (chatComplete answeringEnv SimulateImpact (simulateMessages (str ''What if I pay late?'') [])
                (Some (str ''llama-3.3-70b-versatile'')) (Some (2 / 10))
                (emptyWorld\<lparr>calls := calls emptyWorld @ [EmbedCall [[], str ''What if I pay late?'']]\<rparr>))"
proof -
  have t: "trim (str ''What if I pay late?'') \<noteq> []" by (simp add: trim_def str_def isWhiteSpace_def)
  from t simulateImpact_retrieval_nonempty[of answeringEnv "str ''What if I pay late?''" emptyWorld
      "str ''Rent is due on the first.''"]
  show ?thesis by blast
qed

end
